theory Spec2Isabelle
  imports Main "HOL-Library.Word"
begin

unbundle bit_operations_syntax

section \<open>Data model of the NVMe multipath core (src/core.c)\<close>

text \<open>
  Pointers to namespaces, controllers, bios and shadow records are addresses
  (\<open>nat\<close>); a pointer that the code tests against NULL is a \<open>nat option\<close>.
  The heaps are total functions from addresses to records.  An \<open>unsigned long\<close>
  is a 64-bit word (LP64 kernel), an \<open>unsigned int\<close> a 32-bit word.
\<close>

type_synonym ulong = "64 word"
type_synonym uint = "32 word"
type_synonym u16 = "16 word"
type_synonym u8 = "8 word"

text \<open>
  Modelled from the spec: \<open>enum nvme_ctrl_state\<close> is declared in nvme.h, which is
  not part of the sources; section 4.2 of the specification lists its six states.
\<close>

datatype nvme_ctrl_state =
    NVME_CTRL_NEW
  | NVME_CTRL_LIVE
  | NVME_CTRL_RESETTING
  | NVME_CTRL_RECONNECTING
  | NVME_CTRL_DELETING
  | NVME_CTRL_DEAD

text \<open>
  Modelled from the spec: the flag bits are declared in nvme.h as well; these
  are the bits that core.c tests or sets, which section 3 of the specification
  lists for a controller (aggregate, child of an aggregate) and for a
  namespace.
\<close>

datatype nvme_ctrl_flag = NVME_CTRL_MULTIPATH | NVME_CTRL_MPATH_CHILD

datatype nvme_ns_flag =
    NVME_NS_ROOT
  | NVME_NS_MULTIPATH
  | NVME_NS_REMOVING
  | NVME_NS_DEAD
  | NVME_NS_FO_IN_PROGRESS

text \<open>The anonymous enum of core.c, lines 97 to 104.\<close>

datatype nvme_ns_state =
    NVME_NS_STATE_ACTIVE
  | NVME_NS_STATE_STANDBY
  | NVME_NS_STATE_UNDEFINED

text \<open>
  \<open>blk_status_t\<close>: the outcome classes that \<open>nvme_error_status\<close> produces;
  \<open>BLK_STS_OK\<close> is the value 0 that the code tests with \<open>if (error)\<close>.
\<close>

datatype blk_status =
    BLK_STS_OK
  | BLK_STS_NOSPC
  | BLK_STS_NOTSUPP
  | BLK_STS_MEDIUM
  | BLK_STS_IOERR

text \<open>
  \<open>struct nvme_ctrl\<close> (declared in nvme.h), the fields used by the state machine
  and by the failover engine.  For a physical controller \<open>namespaces\<close> links its namespaces through
  \<open>ns->list\<close>; for a multipath (aggregate) controller it links the member
  namespaces of the group through \<open>ns->mpathlist\<close>, and \<open>mpath_namespace\<close>
  links the aggregate namespace.
\<close>

record nvme_ctrl =
  state :: nvme_ctrl_state
  ctrl_flags :: "nvme_ctrl_flag set"
  namespaces :: "nat list"
  mpath_namespace :: "nat list"
  cleanup_done :: bool

text \<open>
  \<open>struct nvme_ns\<close> (declared in nvme.h): physical member namespaces and the
  aggregate namespace.  \<open>fq_cong\<close> is the congestion queue, and \<open>fq_full\<close>
  says whether the wait entry \<open>fq_cong_wait\<close> is on the wait queue \<open>fq_full\<close>,
  which is what \<open>waitqueue_active\<close> reads.
\<close>

record nvme_ns =
  ns_ctrl :: nat
  ns_mpath_ctrl :: "nat option"
  ns_active :: bool
  ns_flags :: "nvme_ns_flag set"
  ns_start_time :: ulong
  ns_bdev :: nat
  fq_cong :: "nat list"
  fq_full :: bool

text \<open>
  A block-layer request with the driver's per-request data (\<open>nvme_req(req)\<close>):
  a start time in ticks, a timeout (\<open>unsigned int\<close>), the retry counter (a
  \<open>u8\<close>) and the 16-bit status.  \<open>rq_noretry\<close> is the value of the block-layer
  macro \<open>blk_noretry_request(req)\<close>.
\<close>

record request =
  rq_noretry :: bool
  rq_start_time :: ulong
  rq_timeout :: uint
  rq_retries :: u8
  rq_status :: u16

section \<open>Controller state machine\<close>

text \<open>
  \<open>nvme_change_ctrl_state\<close> (lines 222 to 293).  The outer switch is on the new
  state, the inner one on the old state; the result is \<open>changed\<close> and the
  controller after the call.
\<close>

definition nvme_change_ctrl_state :: "nvme_ctrl \<Rightarrow> nvme_ctrl_state \<Rightarrow> bool \<times> nvme_ctrl" where
  "nvme_change_ctrl_state ctrl new_state =
     (let old_state = state ctrl;
          changed =
            (case new_state of
               NVME_CTRL_LIVE \<Rightarrow>
                 (case old_state of
                    NVME_CTRL_NEW \<Rightarrow> True
                  | NVME_CTRL_RESETTING \<Rightarrow> True
                  | NVME_CTRL_RECONNECTING \<Rightarrow> True
                  | _ \<Rightarrow> False)
             | NVME_CTRL_RESETTING \<Rightarrow>
                 (case old_state of
                    NVME_CTRL_NEW \<Rightarrow> True
                  | NVME_CTRL_LIVE \<Rightarrow> True
                  | _ \<Rightarrow> False)
             | NVME_CTRL_RECONNECTING \<Rightarrow>
                 (case old_state of
                    NVME_CTRL_LIVE \<Rightarrow> True
                  | _ \<Rightarrow> False)
             | NVME_CTRL_DELETING \<Rightarrow>
                 (case old_state of
                    NVME_CTRL_LIVE \<Rightarrow> True
                  | NVME_CTRL_RESETTING \<Rightarrow> True
                  | NVME_CTRL_RECONNECTING \<Rightarrow> True
                  | _ \<Rightarrow> False)
             | NVME_CTRL_DEAD \<Rightarrow>
                 (case old_state of
                    NVME_CTRL_DELETING \<Rightarrow> True
                  | _ \<Rightarrow> False)
             | _ \<Rightarrow> False)
      in (changed, if changed then ctrl\<lparr>state := new_state\<rparr> else ctrl))"

text \<open>
  The transition table as section 4.2 of the specification words it
  (source state, allowed target).
\<close>

fun spec_transition_table :: "nvme_ctrl_state \<Rightarrow> nvme_ctrl_state \<Rightarrow> bool" where
  "spec_transition_table NVME_CTRL_NEW new =
     (new = NVME_CTRL_LIVE \<or> new = NVME_CTRL_RESETTING \<or> new = NVME_CTRL_DELETING)"
| "spec_transition_table NVME_CTRL_LIVE new =
     (new = NVME_CTRL_RESETTING \<or> new = NVME_CTRL_RECONNECTING \<or> new = NVME_CTRL_DELETING)"
| "spec_transition_table NVME_CTRL_RESETTING new =
     (new = NVME_CTRL_LIVE \<or> new = NVME_CTRL_DELETING)"
| "spec_transition_table NVME_CTRL_RECONNECTING new =
     (new = NVME_CTRL_LIVE \<or> new = NVME_CTRL_DELETING)"
| "spec_transition_table NVME_CTRL_DELETING new = (new = NVME_CTRL_DEAD)"
| "spec_transition_table NVME_CTRL_DEAD new = False"

text \<open>The same table without the pair (NEW, DELETING).\<close>

fun legal_transition :: "nvme_ctrl_state \<Rightarrow> nvme_ctrl_state \<Rightarrow> bool" where
  "legal_transition NVME_CTRL_NEW new =
     (new = NVME_CTRL_LIVE \<or> new = NVME_CTRL_RESETTING)"
| "legal_transition NVME_CTRL_LIVE new =
     (new = NVME_CTRL_RESETTING \<or> new = NVME_CTRL_RECONNECTING \<or> new = NVME_CTRL_DELETING)"
| "legal_transition NVME_CTRL_RESETTING new =
     (new = NVME_CTRL_LIVE \<or> new = NVME_CTRL_DELETING)"
| "legal_transition NVME_CTRL_RECONNECTING new =
     (new = NVME_CTRL_LIVE \<or> new = NVME_CTRL_DELETING)"
| "legal_transition NVME_CTRL_DELETING new = (new = NVME_CTRL_DEAD)"
| "legal_transition NVME_CTRL_DEAD new = False"

section \<open>Command pipeline: retry or terminal completion\<close>

text \<open>
  Modelled from the spec: the status codes are declared in linux/nvme.h, a
  kernel header that is not part of the sources.  Section 4.1 of the
  specification names the classes they stand for (success, no-space,
  not-supported, medium-error, do-not-retry); the values are those the NVMe
  protocol assigns.
\<close>

definition NVME_SC_SUCCESS :: u16 where "NVME_SC_SUCCESS = 0x0"
definition NVME_SC_CAP_EXCEEDED :: u16 where "NVME_SC_CAP_EXCEEDED = 0x81"
definition NVME_SC_ONCS_NOT_SUPPORTED :: u16 where "NVME_SC_ONCS_NOT_SUPPORTED = 0x183"
definition NVME_SC_WRITE_FAULT :: u16 where "NVME_SC_WRITE_FAULT = 0x280"
definition NVME_SC_READ_ERROR :: u16 where "NVME_SC_READ_ERROR = 0x281"
definition NVME_SC_UNWRITTEN_BLOCK :: u16 where "NVME_SC_UNWRITTEN_BLOCK = 0x287"
definition NVME_SC_DNR :: u16 where "NVME_SC_DNR = 0x4000"

text \<open>\<open>nvme_error_status\<close> (lines 160 to 176).\<close>

definition nvme_error_status :: "request \<Rightarrow> blk_status" where
  "nvme_error_status req =
     (let sc = rq_status req AND 0x7ff in
      if sc = NVME_SC_SUCCESS then BLK_STS_OK
      else if sc = NVME_SC_CAP_EXCEEDED then BLK_STS_NOSPC
      else if sc = NVME_SC_ONCS_NOT_SUPPORTED then BLK_STS_NOTSUPP
      else if sc = NVME_SC_WRITE_FAULT \<or> sc = NVME_SC_READ_ERROR
              \<or> sc = NVME_SC_UNWRITTEN_BLOCK then BLK_STS_MEDIUM
      else BLK_STS_IOERR)"

text \<open>
  \<open>nvme_req_needs_retry\<close> (lines 178 to 189).  The globals \<open>jiffies\<close> and
  \<open>nvme_max_retries\<close> (an \<open>unsigned char\<close>) are arguments.  The subtraction is
  on \<open>unsigned long\<close> and wraps; the \<open>unsigned int\<close> timeout is widened for the
  comparison; the two \<open>u8\<close> counters are compared as integers.
\<close>

definition nvme_req_needs_retry :: "ulong \<Rightarrow> u8 \<Rightarrow> request \<Rightarrow> bool" where
  "nvme_req_needs_retry jiffies nvme_max_retries req =
     (if rq_noretry req then False
      else if rq_status req AND NVME_SC_DNR \<noteq> 0 then False
      else if jiffies - rq_start_time req \<ge> ucast (rq_timeout req) then False
      else if unat (rq_retries req) \<ge> unat nvme_max_retries then False
      else True)"

text \<open>
  \<open>nvme_complete_rq\<close> (lines 191 to 200) hands the request to exactly one of two
  block-layer calls, which is the result of the model.
\<close>

datatype rq_completion =
    Blk_mq_requeue_request request
  | Blk_mq_end_request request blk_status

definition nvme_complete_rq :: "ulong \<Rightarrow> u8 \<Rightarrow> request \<Rightarrow> rq_completion" where
  "nvme_complete_rq jiffies nvme_max_retries req =
     (if rq_status req \<noteq> 0 \<and> nvme_req_needs_retry jiffies nvme_max_retries req
      then Blk_mq_requeue_request (req\<lparr>rq_retries := rq_retries req + 1\<rparr>)
      else Blk_mq_end_request req (nvme_error_status req))"

text \<open>
  The four retry conditions in the words of section 4.1 of the specification:
  not marked no-retry, no do-not-retry bit (bit 14) in the status, elapsed
  ticks under the timeout, retry counter under the maximum.
\<close>

definition retry_conditions :: "ulong \<Rightarrow> u8 \<Rightarrow> request \<Rightarrow> bool" where
  "retry_conditions now max_retries req =
     (\<not> rq_noretry req \<and>
      rq_status req AND 0x4000 = 0 \<and>
      unat (now - rq_start_time req) < unat (rq_timeout req) \<and>
      unat (rq_retries req) < unat max_retries)"

section \<open>Kernel state seen by the multipath code\<close>

text \<open>
  \<open>struct nvme_failover_data\<close> (lines 128 to 133), the private data of a
  set-active admin request.  \<open>nvme_set_ns_active\<close> never writes its
  \<open>active_ns\<close> field and nothing reads it, so it is left out.
\<close>

record nvme_failover_data =
  fd_standby_ns :: nat
  fd_mpath_ns :: nat
  fd_retries :: int

text \<open>
  A bio's completion callback is either the submitter's own (identified by an
  address) or the driver's \<open>nvme_mpath_endio\<close>.
\<close>

datatype bio_end_io = Submitter_end_io nat | Nvme_mpath_endio

text \<open>
  The fields of the block layer's \<open>struct bio\<close> that the driver reads or
  writes, with the widths the block layer declares: \<open>bi_flags\<close> and \<open>bi_vcnt\<close>
  are \<open>unsigned short\<close>; \<open>bi_iter.bi_sector\<close> is a \<open>sector_t\<close>;
  \<open>bi_iter.bi_size\<close>, \<open>bi_iter.bi_idx\<close>, \<open>bi_iter.bi_bvec_done\<close>,
  \<open>bi_phys_segments\<close> and the two segment sizes are \<open>unsigned int\<close>;
  \<open>__bi_remaining\<close> is an \<open>atomic_t\<close>, which the driver only sets to 1.
\<close>

record bio =
  bi_bdev :: nat
  bi_status :: blk_status
  bi_flags :: u16
  bi_idx :: uint
  bi_bvec_done :: uint
  bi_sector :: ulong
  bi_size :: uint
  bi_vcnt :: u16
  bi_phys_segments :: uint
  bi_seg_front_size :: uint
  bi_seg_back_size :: uint
  bi_remaining :: int
  bi_failfast_transport :: bool
  bi_end_io :: bio_end_io
  bi_private :: nat

text \<open>
  \<open>struct nvme_mpath_priv\<close> (lines 108 to 125), the shadow record of a bio.
  Its \<open>bi_flags\<close> is an \<open>unsigned long\<close> and its \<open>nr_bytes\<close> a \<open>size_t\<close>,
  both wider than the fields of the bio they save.
\<close>

record nvme_mpath_priv =
  priv_ns :: nat
  priv_mpath_ns :: nat
  priv_bi_bdev :: nat
  priv_bi_flags :: ulong
  priv_bi_sector :: ulong
  priv_bi_vcnt :: u16
  priv_bi_phys_segments :: uint
  priv_bi_private :: nat
  priv_nr_bytes :: ulong
  priv_bio :: nat
  priv_bi_end_io :: bio_end_io
  priv_nr_retries :: int
  priv_start_time :: ulong

text \<open>
  The state: the heaps, the globals that the code reads (\<open>jiffies\<close>, the tick
  rate \<open>HZ\<close>, the module parameters, the list of aggregate controllers), and the
  calls made to the block layer and the work queue, in order:
  \<^item> \<open>admin_requests\<close>: set-active requests issued with
    \<open>blk_execute_rq_nowait\<close> that have not completed yet;
  \<^item> \<open>delayed_work\<close>: calls \<open>schedule_delayed_work(&ctrl->cu_work, delay)\<close>,
    as (controller, delay);
  \<^item> \<open>submitted\<close>: calls \<open>generic_make_request(bio)\<close>, with the bio as passed;
  \<^item> \<open>ended\<close>: calls \<open>bio_endio(bio)\<close>, with the bio as passed;
  \<^item> \<open>freed\<close>: shadow records given back with \<open>mempool_free\<close>.
\<close>

record kernel =
  nss :: "nat \<Rightarrow> nvme_ns"
  ctrls :: "nat \<Rightarrow> nvme_ctrl"
  bios :: "nat \<Rightarrow> bio"
  privs :: "nat \<Rightarrow> nvme_mpath_priv"
  jiffies :: ulong
  HZ :: uint
  ns_failover_interval :: uint
  nvme_max_retries :: u8
  nvme_io_timeout :: u8
  nvme_mpath_ctrl_list :: "nat list"
  admin_requests :: "nvme_failover_data list"
  delayed_work :: "(nat \<times> ulong) list"
  submitted :: "(nat \<times> bio) list"
  ended :: "(nat \<times> bio) list"
  freed :: "nat list"

text \<open>
  What can go wrong with memory: a NULL pointer is dereferenced; the cursor of
  a \<open>list_for_each_entry\<close> over an empty list (which is the list head
  reinterpreted as an entry, never NULL) is used as an entry; or
  \<open>remove_wait_queue\<close> unlinks a wait entry that is not queued, whose list
  pointers are NULL or poisoned.
\<close>

datatype fault = Null_deref | Bad_list_entry | Bad_list_del

text \<open>Reading through a pointer that may be NULL.\<close>

definition deref :: "nat option \<Rightarrow> fault + nat" where
  "deref p = (case p of None \<Rightarrow> Inl Null_deref | Some a \<Rightarrow> Inr a)"

text \<open>Writing to the namespace, or to the controller, at address \<open>a\<close>.\<close>

definition ns_upd :: "nat \<Rightarrow> (nvme_ns \<Rightarrow> nvme_ns) \<Rightarrow> kernel \<Rightarrow> kernel" where
  "ns_upd a f s = s\<lparr>nss := (nss s)(a := f (nss s a))\<rparr>"

definition ctrl_upd :: "nat \<Rightarrow> (nvme_ctrl \<Rightarrow> nvme_ctrl) \<Rightarrow> kernel \<Rightarrow> kernel" where
  "ctrl_upd a f s = s\<lparr>ctrls := (ctrls s)(a := f (ctrls s a))\<rparr>"

text \<open>
  The kernel's \<open>test_bit\<close>, \<open>set_bit\<close> and \<open>clear_bit\<close> on the flags word of
  the namespace at address \<open>a\<close>.
\<close>

definition test_bit_ns :: "nvme_ns_flag \<Rightarrow> nat \<Rightarrow> kernel \<Rightarrow> bool" where
  "test_bit_ns f a s = (f \<in> ns_flags (nss s a))"

definition set_bit_ns :: "nvme_ns_flag \<Rightarrow> nat \<Rightarrow> kernel \<Rightarrow> kernel" where
  "set_bit_ns f a s = ns_upd a (\<lambda>n. n\<lparr>ns_flags := insert f (ns_flags n)\<rparr>) s"

definition clear_bit_ns :: "nvme_ns_flag \<Rightarrow> nat \<Rightarrow> kernel \<Rightarrow> kernel" where
  "clear_bit_ns f a s = ns_upd a (\<lambda>n. n\<lparr>ns_flags := ns_flags n - {f}\<rparr>) s"

text \<open>\<open>test_and_clear_bit(f, &p->flags)\<close> through a pointer that may be NULL.\<close>

definition test_and_clear_bit :: "nvme_ns_flag \<Rightarrow> nat option \<Rightarrow> kernel \<Rightarrow> fault + kernel" where
  "test_and_clear_bit f p s =
     (case deref p of Inl e \<Rightarrow> Inl e | Inr a \<Rightarrow> Inr (clear_bit_ns f a s))"

text \<open>\<open>schedule_delayed_work(&ctrl->cu_work, delay)\<close>: the call is recorded.\<close>

definition schedule_delayed_work :: "nat \<Rightarrow> ulong \<Rightarrow> kernel \<Rightarrow> kernel" where
  "schedule_delayed_work ctrl delay s = s\<lparr>delayed_work := delayed_work s @ [(ctrl, delay)]\<rparr>"

section \<open>Path and namespace registry\<close>

text \<open>\<open>get_ns_state\<close> (lines 1364 to 1372).\<close>

definition get_ns_state :: "kernel \<Rightarrow> nat \<Rightarrow> nvme_ns_state" where
  "get_ns_state s ns =
     (if ns_active (nss s ns) \<and> state (ctrls s (ns_ctrl (nss s ns))) = NVME_CTRL_LIVE
      then NVME_NS_STATE_ACTIVE
      else if \<not> ns_active (nss s ns) \<and> state (ctrls s (ns_ctrl (nss s ns))) = NVME_CTRL_LIVE
      then NVME_NS_STATE_STANDBY
      else NVME_NS_STATE_UNDEFINED)"

text \<open>
  \<open>get_ns_active\<close> (lines 1374 to 1384): the first member of
  \<open>mpath_ns->ctrl->namespaces\<close> that passes the test, or NULL.
\<close>

definition get_ns_active :: "kernel \<Rightarrow> nat \<Rightarrow> nat option" where
  "get_ns_active s mpath_ns =
     find (\<lambda>tmp. get_ns_state s tmp = NVME_NS_STATE_ACTIVE \<and> test_bit_ns NVME_NS_MULTIPATH tmp s)
       (namespaces (ctrls s (ns_ctrl (nss s mpath_ns))))"

text \<open>\<open>nvme_get_active_ns_for_mpath_ns\<close> (lines 1209 to 1231).\<close>

definition nvme_get_active_ns_for_mpath_ns :: "kernel \<Rightarrow> nat \<Rightarrow> nat option" where
  "nvme_get_active_ns_for_mpath_ns s mpath_ns =
     (if test_bit_ns NVME_NS_ROOT mpath_ns s
      then find (\<lambda>ns. ns_active (nss s ns)) (namespaces (ctrls s (ns_ctrl (nss s mpath_ns))))
      else Some mpath_ns)"

section \<open>Failover engine\<close>

definition NVME_FAILOVER_RETRIES :: int where
  "NVME_FAILOVER_RETRIES = 3"

text \<open>
  The two allocations of \<open>nvme_set_ns_active\<close> can fail; which of them does is
  an input of the model.  A failed \<open>nvme_alloc_request\<close> yields an error pointer
  carrying an errno.
\<close>

datatype errno = ENOMEM | EWOULDBLOCK | EINVAL | ENODEV

fun neg_errno :: "errno \<Rightarrow> int" where
  "neg_errno ENOMEM = - 12"
| "neg_errno EWOULDBLOCK = - 11"
| "neg_errno EINVAL = - 22"
| "neg_errno ENODEV = - 19"

datatype alloc_outcome = Alloc_ok | Kmalloc_fails | Alloc_request_fails errno

text \<open>
  \<open>nvme_set_ns_active\<close> (lines 1094 to 1126): builds the vendor command 0xFE for
  the standby namespace and issues it without waiting; the completion will call
  \<open>nvme_ns_active_end_io\<close>.  Returns 0 or a negative errno.
\<close>

definition nvme_set_ns_active :: "alloc_outcome \<Rightarrow> nat \<Rightarrow> nat \<Rightarrow> int \<Rightarrow> kernel \<Rightarrow> int \<times> kernel" where
  "nvme_set_ns_active alloc standby_ns mpath_ns retry_cnt s =
     (case alloc of
        Kmalloc_fails \<Rightarrow> (neg_errno ENOMEM, s)
      | Alloc_request_fails e \<Rightarrow> (neg_errno e, s)
      | Alloc_ok \<Rightarrow>
          (0, s\<lparr>admin_requests := admin_requests s @
                  [\<lparr>fd_standby_ns = standby_ns, fd_mpath_ns = mpath_ns,
                    fd_retries = retry_cnt\<rparr>]\<rparr>))"

text \<open>
  \<open>nvme_ns_active_end_io\<close> (lines 1063 to 1092), the completion of a set-active
  request with private data \<open>priv\<close> and block status \<open>error\<close>.  Both branches
  go through \<open>standby_ns->mpath_ctrl\<close> (line 1081 on success, line 1089 on
  error), so a NULL there is a fault in either case.
\<close>

definition nvme_ns_active_end_io :: "nvme_failover_data \<Rightarrow> blk_status \<Rightarrow> kernel \<Rightarrow> fault + kernel" where
  "nvme_ns_active_end_io priv error s =
     (let standby_ns = fd_standby_ns priv;
          mpath_ns = fd_mpath_ns priv
      in case deref (ns_mpath_ctrl (nss s standby_ns)) of
           Inl e \<Rightarrow> Inl e
         | Inr mpath_ctrl \<Rightarrow>
             (let s1 = (if error \<noteq> BLK_STS_OK then s
                        else ctrl_upd mpath_ctrl (\<lambda>c. c\<lparr>cleanup_done := True\<rparr>)
                               (ns_upd standby_ns (\<lambda>n. n\<lparr>ns_active := True\<rparr>) s));
                  s2 = clear_bit_ns NVME_NS_FO_IN_PROGRESS mpath_ns s1
              in Inr (if error \<noteq> BLK_STS_OK
                      then schedule_delayed_work mpath_ctrl (ucast (HZ s2)) s2
                      else s2)))"

text \<open>
  \<open>nvme_update_active\<close> (lines 3260 to 3287).  The result is the return value
  (-1, 0 or 1) and the state.  The first branch is the guard of lines 3263 to
  3266: it clears a bit through \<open>mpath_ns\<close> itself.
\<close>

definition nvme_update_active :: "alloc_outcome \<Rightarrow> nat option \<Rightarrow> kernel \<Rightarrow> fault + (int \<times> kernel)" where
  "nvme_update_active alloc mpath_ns s =
     (if mpath_ns = None
      then (case test_and_clear_bit NVME_NS_FO_IN_PROGRESS mpath_ns s of
              Inl e \<Rightarrow> Inl e
            | Inr s' \<Rightarrow> Inr (- 1, s'))
      else case deref mpath_ns of
             Inl e \<Rightarrow> Inl e
           | Inr r \<Rightarrow>
               (case find (\<lambda>ns. \<not> ns_active (nss s ns) \<and>
                                 state (ctrls s (ns_ctrl (nss s ns))) \<noteq> NVME_CTRL_RECONNECTING)
                       (namespaces (ctrls s (ns_ctrl (nss s r)))) of
                  None \<Rightarrow> Inr (- 1, clear_bit_ns NVME_NS_FO_IN_PROGRESS r s)
                | Some ns \<Rightarrow>
                    (case nvme_set_ns_active alloc ns r NVME_FAILOVER_RETRIES s of
                       (ret, s') \<Rightarrow>
                         if ret \<noteq> 0 then Inr (0, clear_bit_ns NVME_NS_FO_IN_PROGRESS r s')
                         else Inr (1, s'))))"

text \<open>
  The loop of lines 3305 to 3310 over the namespaces of the failing controller:
  it remembers the aggregate controller and the namespace of each entry and
  stops at the first active one.  The pair is \<open>(mpath_ctrl, ns)\<close>.
\<close>

fun failover_pick :: "(nat \<Rightarrow> nvme_ns) \<Rightarrow> nat list \<Rightarrow> nat option \<times> nat option \<Rightarrow> nat option \<times> nat option" where
  "failover_pick h [] acc = acc"
| "failover_pick h (tmp # rest) acc =
     (if ns_active (h tmp) then (ns_mpath_ctrl (h tmp), Some tmp)
      else failover_pick h rest (ns_mpath_ctrl (h tmp), Some tmp))"

text \<open>
  Lines 3304 to 3337: which aggregate controller and aggregate namespace the
  call is about.  \<open>None\<close> is one of the early returns.  The cursor of the loop
  over \<open>mpath_ctrl->mpath_namespace\<close> is never NULL, so the test of line 3334
  cannot fire, and over an empty list the cursor is not a namespace.
\<close>

definition failover_target :: "kernel \<Rightarrow> nat \<Rightarrow> fault + (nat \<times> nat) option" where
  "failover_target s ctrl =
     (if NVME_CTRL_MPATH_CHILD \<notin> ctrl_flags (ctrls s ctrl) then Inr None
      else case failover_pick (nss s) (namespaces (ctrls s ctrl)) (None, None) of
        (None, ns) \<Rightarrow> Inr None
      | (Some mpath_ctrl, ns) \<Rightarrow>
          if (case ns of None \<Rightarrow> False
              | Some n \<Rightarrow> \<not> ns_active (nss s n) \<and> cleanup_done (ctrls s mpath_ctrl))
          then Inr None
          else (case mpath_namespace (ctrls s mpath_ctrl) of
                  [] \<Rightarrow> Inl Bad_list_entry
                | mpath_ns # rest \<Rightarrow> Inr (Some (mpath_ctrl, mpath_ns))))"

text \<open>
  The scan of lines 3354 to 3382.  Every path through the block that runs once
  both \<open>active_ns\<close> and \<open>standby_ns\<close> are set ends in \<open>break\<close>, so the loop is
  the search for that moment and the block runs after it, on its result.
\<close>

fun failover_scan :: "(nat \<Rightarrow> nvme_ns) \<Rightarrow> nat list \<Rightarrow> nat option \<Rightarrow> nat option \<Rightarrow> nat option \<times> nat option" where
  "failover_scan h [] active_ns standby_ns = (active_ns, standby_ns)"
| "failover_scan h (ns # rest) active_ns standby_ns =
     (let a = (if ns_active (h ns) then Some ns else active_ns);
          b = (if ns_active (h ns) then standby_ns else Some ns)
      in if a \<noteq> None \<and> b \<noteq> None then (a, b) else failover_scan h rest a b)"

text \<open>
  The rate limit of line 3366: the elapsed ticks, an \<open>unsigned long\<close>, against the
  product \<open>ns_failover_interval * HZ\<close>, computed in \<open>unsigned int\<close>.
\<close>

definition failover_too_soon :: "kernel \<Rightarrow> nat \<Rightarrow> bool" where
  "failover_too_soon s standby_ns =
     (jiffies s - ns_start_time (nss s standby_ns) < ucast (ns_failover_interval s * HZ s))"

text \<open>
  Lines 3362 to 3380: the block run when the scan has found both members.
\<close>

definition failover_switch :: "alloc_outcome \<Rightarrow> nat \<Rightarrow> nat \<Rightarrow> nat \<Rightarrow> nat \<Rightarrow> kernel \<Rightarrow> fault + kernel" where
  "failover_switch alloc mpath_ctrl mpath_ns active_ns standby_ns s =
     (if active_ns = standby_ns then Inr (clear_bit_ns NVME_NS_FO_IN_PROGRESS mpath_ns s)
      else if failover_too_soon s standby_ns
      then Inr (schedule_delayed_work mpath_ctrl (ucast (HZ s))
                  (clear_bit_ns NVME_NS_FO_IN_PROGRESS mpath_ns s))
      else case deref (ns_mpath_ctrl (nss s active_ns)) of
             Inl e \<Rightarrow> Inl e
           | Inr amc \<Rightarrow>
               (let s1 = ctrl_upd amc (\<lambda>c. c\<lparr>cleanup_done := False\<rparr>) s;
                    s2 = ns_upd active_ns (\<lambda>n. n\<lparr>ns_active := False\<rparr>) s1;
                    s3 = ns_upd active_ns (\<lambda>n. n\<lparr>ns_start_time := jiffies s2\<rparr>) s2
                in case nvme_set_ns_active alloc standby_ns mpath_ns NVME_FAILOVER_RETRIES s3 of
                     (ret, s4) \<Rightarrow>
                       if ret \<noteq> 0
                       then Inr (schedule_delayed_work mpath_ctrl (ucast (HZ s4))
                                   (clear_bit_ns NVME_NS_FO_IN_PROGRESS mpath_ns s4))
                       else Inr s4))"

text \<open>
  \<open>nvme_trigger_failover\<close> (lines 3294 to 3389).  \<open>test_and_set_bit\<close> returns
  the old bit: when it was set the call returns at once; otherwise the bit is
  set and the call goes on.
\<close>

definition nvme_trigger_failover :: "alloc_outcome \<Rightarrow> nat \<Rightarrow> kernel \<Rightarrow> fault + kernel" where
  "nvme_trigger_failover alloc ctrl s =
     (case failover_target s ctrl of
        Inl e \<Rightarrow> Inl e
      | Inr None \<Rightarrow> Inr s
      | Inr (Some (mpath_ctrl, mpath_ns)) \<Rightarrow>
          if test_bit_ns NVME_NS_FO_IN_PROGRESS mpath_ns s then Inr s
          else
            (let s1 = set_bit_ns NVME_NS_FO_IN_PROGRESS mpath_ns s in
             if \<not> cleanup_done (ctrls s1 mpath_ctrl)
             then (case nvme_update_active alloc (Some mpath_ns) s1 of
                     Inl e \<Rightarrow> Inl e
                   | Inr (ret, s2) \<Rightarrow>
                       if ret = 0
                       then Inr (schedule_delayed_work mpath_ctrl (ucast (HZ s2)) s2)
                       else Inr s2)
             else if test_bit_ns NVME_NS_ROOT mpath_ns s1
             then (case failover_scan (nss s1)
                          (namespaces (ctrls s1 (ns_ctrl (nss s1 mpath_ns)))) None None of
                     (Some active_ns, Some standby_ns) \<Rightarrow>
                       failover_switch alloc mpath_ctrl mpath_ns active_ns standby_ns s1
                   | (Some active_ns, None) \<Rightarrow>
                       Inr (clear_bit_ns NVME_NS_FO_IN_PROGRESS mpath_ns s1)
                   | (None, standby_ns) \<Rightarrow> Inr s1)
             else Inr s1))"

section \<open>Congestion queue: cancelling and resubmitting parked I/O\<close>

text \<open>
  One iteration of the loop of \<open>nvme_mpath_cancel_ios\<close> (lines 873 to 885): the
  bio gets its saved fields back and is ended with an I/O error, and its shadow
  record is freed.  The accounting call only touches disk statistics.
\<close>

definition cancel_bio :: "nat \<Rightarrow> kernel \<Rightarrow> kernel" where
  "cancel_bio b s =
     (let p = bi_private (bios s b);
          priv = privs s p;
          bio' = (bios s b)\<lparr>bi_status := BLK_STS_IOERR, bi_bdev := priv_bi_bdev priv,
                   bi_end_io := priv_bi_end_io priv, bi_private := priv_bi_private priv\<rparr>
      in s\<lparr>bios := (bios s)(b := bio'), ended := ended s @ [(b, bio')],
           freed := freed s @ [p]\<rparr>)"

text \<open>
  \<open>remove_wait_queue(&mpath_ns->fq_full, &mpath_ns->fq_cong_wait)\<close> (lines 870
  and 1429).  The wait queue \<open>fq_full\<close> only ever holds the entry
  \<open>fq_cong_wait\<close> of its own namespace, so the field \<open>fq_full\<close> of the model
  says whether that entry is queued.
\<close>

definition remove_wait_queue :: "nat \<Rightarrow> kernel \<Rightarrow> fault + kernel" where
  "remove_wait_queue mpath_ns s =
     (if fq_full (nss s mpath_ns)
      then Inr (ns_upd mpath_ns (\<lambda>n. n\<lparr>fq_full := False\<rparr>) s)
      else Inl Bad_list_del)"

text \<open>\<open>nvme_mpath_cancel_ios\<close> (lines 852 to 888).\<close>

definition nvme_mpath_cancel_ios :: "nat \<Rightarrow> kernel \<Rightarrow> fault + kernel" where
  "nvme_mpath_cancel_ios mpath_ns s =
     (if fq_cong (nss s mpath_ns) = [] then Inr s
      else let parked = fq_cong (nss s mpath_ns);
               s1 = ns_upd mpath_ns (\<lambda>n. n\<lparr>fq_cong := []\<rparr>) s
           in case remove_wait_queue mpath_ns s1 of
                Inl e \<Rightarrow> Inl e
              | Inr s2 \<Rightarrow> Inr (fold cancel_bio parked s2))"

text \<open>
  \<open>nvme_mpath_flush_io_work\<close> (lines 890 to 918), the handler of the delayed
  work \<open>cu_work\<close> of an aggregate controller (line 3165).
\<close>

definition nvme_mpath_flush_io_work :: "nat \<Rightarrow> kernel \<Rightarrow> fault + kernel" where
  "nvme_mpath_flush_io_work mpath_ctrl s =
     (case mpath_namespace (ctrls s mpath_ctrl) of
        [] \<Rightarrow> Inl Bad_list_entry
      | mpath_ns # rest \<Rightarrow>
          if test_bit_ns NVME_NS_FO_IN_PROGRESS mpath_ns s
          then Inr (schedule_delayed_work mpath_ctrl
                      (ucast (nvme_io_timeout s) * ucast (HZ s)) s)
          else if test_bit_ns NVME_NS_ROOT mpath_ns s
          then nvme_mpath_cancel_ios mpath_ns s
          else Inr s)"

text \<open>
  One iteration of the loop of \<open>nvme_mpath_resubmit_bios\<close> (lines 1434 to 1453):
  the bio is pointed at the block device of \<open>ns\<close>, rewound from its shadow
  record and handed to \<open>generic_make_request\<close>.  The assignments of the saved
  flags and of the saved byte count narrow them to the width of the bio's
  fields.
\<close>

definition resubmit_bio :: "nat \<Rightarrow> nat \<Rightarrow> kernel \<Rightarrow> kernel" where
  "resubmit_bio ns b s =
     (let p = bi_private (bios s b);
          priv = (privs s p)\<lparr>priv_ns := ns\<rparr>;
          bio' = (bios s b)\<lparr>bi_bdev := ns_bdev (nss s ns), bi_status := BLK_STS_OK,
                   bi_flags := ucast (priv_bi_flags priv), bi_idx := 0, bi_bvec_done := 0,
                   bi_sector := priv_bi_sector priv, bi_size := ucast (priv_nr_bytes priv),
                   bi_vcnt := priv_bi_vcnt priv,
                   bi_phys_segments := priv_bi_phys_segments priv,
                   bi_seg_front_size := 0, bi_seg_back_size := 0, bi_remaining := 1\<rparr>
      in s\<lparr>privs := (privs s)(p := priv), bios := (bios s)(b := bio'),
           submitted := submitted s @ [(b, bio')]\<rparr>)"

text \<open>
  \<open>nvme_mpath_resubmit_bios\<close> (lines 1385 to 1458).  The active namespace is
  looked up once, before the queue is detached.
\<close>

definition nvme_mpath_resubmit_bios :: "nat \<Rightarrow> kernel \<Rightarrow> fault + kernel" where
  "nvme_mpath_resubmit_bios mpath_ns s =
     (if test_bit_ns NVME_NS_FO_IN_PROGRESS mpath_ns s then Inr s
      else if namespaces (ctrls s (ns_ctrl (nss s mpath_ns))) = [] then Inr s
      else case get_ns_active s mpath_ns of
        None \<Rightarrow> Inr s
      | Some ns \<Rightarrow>
          if test_bit_ns NVME_NS_REMOVING ns s
             \<or> \<not> cleanup_done (ctrls s (ns_ctrl (nss s mpath_ns))) then Inr s
          else if test_bit_ns NVME_NS_REMOVING mpath_ns s then Inr s
          else if fq_cong (nss s mpath_ns) = [] then Inr s
          else let parked = fq_cong (nss s mpath_ns);
                   s1 = ns_upd mpath_ns (\<lambda>n. n\<lparr>fq_cong := []\<rparr>) s
               in case remove_wait_queue mpath_ns s1 of
                    Inl e \<Rightarrow> Inl e
                  | Inr s2 \<Rightarrow> Inr (fold (resubmit_bio ns) parked s2))"

text \<open>
  \<open>nvme_mpath_retry_bio\<close> (lines 1484 to 1499) parks the bio \<open>b\<close> on the
  congestion queue of the volume its shadow record names, and queues the
  volume's wait entry unless it is queued already.
\<close>

definition nvme_mpath_retry_bio :: "nat \<Rightarrow> kernel \<Rightarrow> kernel" where
  "nvme_mpath_retry_bio b s =
     (let mpath_ns = priv_mpath_ns (privs s (bi_private (bios s b)))
      in ns_upd mpath_ns (\<lambda>n. n\<lparr>fq_full := True, fq_cong := fq_cong n @ [b]\<rparr>) s)"

text \<open>
  One wake of \<open>nvme_mpath_kthread\<close>: the body of its loop, lines 1468 to 1477.
  \<open>waitqueue_active(&mpath_ns->fq_full)\<close> is the field \<open>fq_full\<close>.
\<close>

fun kthread_ns_loop :: "nat list \<Rightarrow> kernel \<Rightarrow> fault + kernel" where
  "kthread_ns_loop [] s = Inr s"
| "kthread_ns_loop (mpath_ns # rest) s =
     (if fq_full (nss s mpath_ns)
      then (case nvme_mpath_resubmit_bios mpath_ns s of
              Inl e \<Rightarrow> Inl e
            | Inr s1 \<Rightarrow> kthread_ns_loop rest s1)
      else kthread_ns_loop rest s)"

fun kthread_ctrl_loop :: "nat list \<Rightarrow> kernel \<Rightarrow> fault + kernel" where
  "kthread_ctrl_loop [] s = Inr s"
| "kthread_ctrl_loop (mpath_ctrl # rest) s =
     (case kthread_ns_loop (mpath_namespace (ctrls s mpath_ctrl)) s of
        Inl e \<Rightarrow> Inl e
      | Inr s1 \<Rightarrow> kthread_ctrl_loop rest s1)"

definition nvme_mpath_kthread_wake :: "kernel \<Rightarrow> fault + kernel" where
  "nvme_mpath_kthread_wake s = kthread_ctrl_loop (nvme_mpath_ctrl_list s) s"

section \<open>Submission entry point of a multipath volume\<close>

text \<open>\<open>nvme_mpath_priv_bio\<close> (lines 1539 to 1561).\<close>

definition nvme_mpath_priv_bio :: "nat \<Rightarrow> nat \<Rightarrow> nat \<Rightarrow> nat \<Rightarrow> kernel \<Rightarrow> kernel" where
  "nvme_mpath_priv_bio p b ns mpath_ns s =
     (let bio0 = bios s b;
          priv = (privs s p)\<lparr>priv_bi_bdev := bi_bdev bio0, priv_bi_end_io := bi_end_io bio0,
                   priv_bi_private := bi_private bio0, priv_bi_flags := ucast (bi_flags bio0),
                   priv_bi_sector := bi_sector bio0, priv_nr_bytes := ucast (bi_size bio0),
                   priv_bio := b, priv_bi_vcnt := bi_vcnt bio0,
                   priv_bi_phys_segments := bi_phys_segments bio0,
                   priv_nr_retries := uint (nvme_max_retries s),
                   priv_start_time := jiffies s, priv_ns := ns, priv_mpath_ns := mpath_ns\<rparr>;
          bio' = bio0\<lparr>bi_failfast_transport := True, bi_private := p,
                   bi_end_io := Nvme_mpath_endio, bi_bdev := ns_bdev (nss s ns)\<rparr>
      in s\<lparr>privs := (privs s)(p := priv), bios := (bios s)(b := bio')\<rparr>)"

text \<open>
  The label \<open>out_exit_mpath_request\<close> (lines 1617 to 1619): the bio is ended
  with an I/O error.
\<close>

definition out_exit_mpath_request :: "nat \<Rightarrow> kernel \<Rightarrow> kernel" where
  "out_exit_mpath_request b s =
     (let bio' = (bios s b)\<lparr>bi_status := BLK_STS_IOERR\<rparr>
      in s\<lparr>bios := (bios s)(b := bio'), ended := ended s @ [(b, bio')]\<rparr>)"

text \<open>The first loop of \<open>nvme_mpath_make_request\<close> (lines 1583 to 1602).\<close>

datatype active_scan = Found_active nat | Parent_mismatch | No_active

fun mpath_scan_active :: "kernel \<Rightarrow> nat \<Rightarrow> nat list \<Rightarrow> active_scan" where
  "mpath_scan_active s mpath_ns [] = No_active"
| "mpath_scan_active s mpath_ns (ns # rest) =
     (if test_bit_ns NVME_NS_REMOVING ns s then mpath_scan_active s mpath_ns rest
      else if test_bit_ns NVME_NS_FO_IN_PROGRESS mpath_ns s then No_active
      else if get_ns_state s ns = NVME_NS_STATE_ACTIVE
      then (if ns_mpath_ctrl (nss s ns) \<noteq> Some (ns_ctrl (nss s mpath_ns))
            then Parent_mismatch else Found_active ns)
      else mpath_scan_active s mpath_ns rest)"

text \<open>
  From the label \<open>mpath_retry\<close> on (lines 1580 to 1622).  \<open>goto mpath_retry\<close>
  repeats the scan; when nothing else changes the state, it repeats forever, and
  the result is \<open>None\<close>.
\<close>

partial_function (option) mpath_retry :: "nat \<Rightarrow> nat \<Rightarrow> nat \<Rightarrow> kernel \<Rightarrow> kernel option" where
  "mpath_retry p b mpath_ns s =
     (case mpath_scan_active s mpath_ns (namespaces (ctrls s (ns_ctrl (nss s mpath_ns)))) of
        Parent_mismatch \<Rightarrow> mpath_retry p b mpath_ns s
      | Found_active ns \<Rightarrow>
          (let s1 = nvme_mpath_priv_bio p b ns mpath_ns s
           in Some (s1\<lparr>submitted := submitted s1 @ [(b, bios s1 b)]\<rparr>))
      | No_active \<Rightarrow>
          (case find (\<lambda>ns. get_ns_state s ns = NVME_NS_STATE_STANDBY)
                  (namespaces (ctrls s (ns_ctrl (nss s mpath_ns)))) of
             Some ns \<Rightarrow> Some (out_exit_mpath_request b (nvme_mpath_priv_bio p b ns mpath_ns s))
           | None \<Rightarrow> Some (out_exit_mpath_request b s)))"

text \<open>
  \<open>nvme_mpath_make_request\<close> (lines 1563 to 1623) for the bio \<open>b\<close> on the queue
  of the aggregate namespace \<open>mpath_ns\<close>.  \<open>alloc\<close> is what
  \<open>mempool_alloc(pool, GFP_ATOMIC)\<close> returns: a shadow record or NULL.
\<close>

definition nvme_mpath_make_request :: "nat option \<Rightarrow> nat \<Rightarrow> nat \<Rightarrow> kernel \<Rightarrow> kernel option" where
  "nvme_mpath_make_request alloc mpath_ns b s =
     (if test_bit_ns NVME_NS_REMOVING mpath_ns s then Some (out_exit_mpath_request b s)
      else case alloc of
        None \<Rightarrow> Some (out_exit_mpath_request b s)
      | Some p \<Rightarrow> mpath_retry p b mpath_ns s)"

section \<open>Failover and promotion as a transition system\<close>

text \<open>
  The steps: a call of \<open>nvme_trigger_failover\<close> on any controller, with any
  outcome of its allocations; the completion of any set-active request in
  flight, with any status (the block layer takes the request off the queue and
  calls \<open>nvme_ns_active_end_io\<close>); and the clock.
\<close>

inductive failover_step :: "kernel \<Rightarrow> kernel \<Rightarrow> bool" where
  trigger: "nvme_trigger_failover alloc ctrl s = Inr s' \<Longrightarrow> failover_step s s'"
| complete: "admin_requests s = xs @ priv # ys \<Longrightarrow>
             nvme_ns_active_end_io priv error (s\<lparr>admin_requests := xs @ ys\<rparr>) = Inr s' \<Longrightarrow>
             failover_step s s'"
| tick: "failover_step s (s\<lparr>jiffies := j\<rparr>)"

text \<open>The members of the group of aggregate controller \<open>m\<close> whose active flag is set.\<close>

definition active_members :: "kernel \<Rightarrow> nat \<Rightarrow> nat list" where
  "active_members s m = filter (\<lambda>ns. ns_active (nss s ns)) (namespaces (ctrls s m))"

text \<open>
  Well-formed linkage, as \<open>nvme_alloc_mpath_ns\<close> and \<open>nvme_add_ns_mpath_ctrl\<close>
  build it: a group's member list has no repetition, every member points back
  to the group through \<open>mpath_ctrl\<close>, and the group has an aggregate namespace
  whose controller is the aggregate controller.
\<close>

definition group_wf :: "kernel \<Rightarrow> nat \<Rightarrow> bool" where
  "group_wf s m =
     (distinct (namespaces (ctrls s m)) \<and>
      list_all (\<lambda>ns. ns_mpath_ctrl (nss s ns) = Some m) (namespaces (ctrls s m)) \<and>
      (case mpath_namespace (ctrls s m) of
         [] \<Rightarrow> False
       | mpath_ns # rest \<Rightarrow> ns_ctrl (nss s mpath_ns) = m))"

definition mpath_wf :: "kernel \<Rightarrow> bool" where
  "mpath_wf s =
     (list_all (group_wf s) (nvme_mpath_ctrl_list s) \<and>
      (\<forall>ns m. ns_mpath_ctrl (nss s ns) = Some m \<longrightarrow> m \<in> set (nvme_mpath_ctrl_list s)))"

text \<open>
  A settled state: well formed, no set-active request in flight, and every
  group settled (\<open>cleanup_done\<close>, as \<open>nvme_init_mpath_ctrl\<close> sets it) with at
  most one active member.
\<close>

definition settled :: "kernel \<Rightarrow> bool" where
  "settled s =
     (mpath_wf s \<and> admin_requests s = [] \<and>
      list_all (\<lambda>m. cleanup_done (ctrls s m) \<and> length (active_members s m) \<le> 1)
        (nvme_mpath_ctrl_list s))"

text \<open>
  The states the driver builds are not all settled.  For the first path of a
  shared namespace \<open>nvme_shared_ns\<close> sets the active flag and calls
  \<open>nvme_alloc_mpath_ns\<close> (lines 3232 and 3233), which creates the aggregate
  controller (settled: \<open>nvme_init_mpath_ctrl\<close> sets \<open>cleanup_done\<close> at line
  4003) and the aggregate namespace, links the path into the group
  (\<open>nvme_add_ns_mpath_ctrl\<close>, lines 3020 to 3030) and, at line 3160, issues a
  set-active request for that path with \<open>NVME_FAILOVER_RETRIES\<close> retries.  It does
  not take the FAILOVER_IN_PROGRESS flag of the new volume.  Every further path
  joins the group with its active flag clear (lines 3217 to 3221 and 3239).
  So a set-active request may be in flight for a member whose active flag is
  set already: a creation request.
\<close>

definition creation_request :: "kernel \<Rightarrow> nvme_failover_data \<Rightarrow> bool" where
  "creation_request s d =
     (ns_active (nss s (fd_standby_ns d)) \<and> fd_retries d = NVME_FAILOVER_RETRIES \<and>
      (case ns_mpath_ctrl (nss s (fd_standby_ns d)) of
         None \<Rightarrow> False
       | Some m \<Rightarrow>
           (case mpath_namespace (ctrls s m) of
              [] \<Rightarrow> False
            | r # rest \<Rightarrow> r = fd_mpath_ns d)))"

text \<open>
  A state as the driver builds it, before any failover: well formed, every
  group settled with at most one active member, and the requests in flight are
  creation requests.  Every settled state is one.
\<close>

definition built :: "kernel \<Rightarrow> bool" where
  "built s =
     (mpath_wf s \<and>
      list_all (\<lambda>m. cleanup_done (ctrls s m) \<and> length (active_members s m) \<le> 1)
        (nvme_mpath_ctrl_list s) \<and>
      list_all (creation_request s) (admin_requests s))"

text \<open>The states that the failover and promotion operations reach from \<open>s\<close>.\<close>

inductive reaches :: "kernel \<Rightarrow> kernel \<Rightarrow> bool" where
  start: "reaches s s"
| step: "reaches s s' \<Longrightarrow> failover_step s' s'' \<Longrightarrow> reaches s s''"

section \<open>Invariant of the failover engine\<close>

text \<open>
  The failover and promotion operations never change which namespace belongs
  to which controller or group.
\<close>

definition same_links :: "kernel \<Rightarrow> kernel \<Rightarrow> bool" where
  "same_links s s' =
     (nvme_mpath_ctrl_list s' = nvme_mpath_ctrl_list s \<and>
      (\<forall>ns. ns_ctrl (nss s' ns) = ns_ctrl (nss s ns) \<and>
            ns_mpath_ctrl (nss s' ns) = ns_mpath_ctrl (nss s ns)) \<and>
      (\<forall>c. namespaces (ctrls s' c) = namespaces (ctrls s c) \<and>
           mpath_namespace (ctrls s' c) = mpath_namespace (ctrls s c)))"

text \<open>
  A set-active request that \<open>nvme_trigger_failover\<close> has issued and that is
  in flight: its standby belongs to a group, the request names the aggregate
  namespace of that group, the FAILOVER_IN_PROGRESS flag of that namespace is
  set, and no member of the group is active.  A creation request is not of
  this kind: its member is active and the flag was never taken.
\<close>

definition request_ok :: "kernel \<Rightarrow> nvme_failover_data \<Rightarrow> bool" where
  "request_ok s d =
     (case ns_mpath_ctrl (nss s (fd_standby_ns d)) of
        None \<Rightarrow> False
      | Some m \<Rightarrow>
          (case mpath_namespace (ctrls s m) of
             [] \<Rightarrow> False
           | r # rest \<Rightarrow> r = fd_mpath_ns d) \<and>
          NVME_NS_FO_IN_PROGRESS \<in> ns_flags (nss s (fd_mpath_ns d)) \<and>
          active_members s m = [])"

text \<open>
  The invariant of the states reached from a settled state: well-formed links;
  per group at most one active member, and none while the group is unsettled;
  every request in flight is as above; and no two requests in flight name the
  same aggregate namespace.
\<close>

definition fo_inv :: "kernel \<Rightarrow> bool" where
  "fo_inv s =
     (mpath_wf s \<and>
      list_all (\<lambda>m. length (active_members s m) \<le> 1 \<and>
                    (\<not> cleanup_done (ctrls s m) \<longrightarrow> active_members s m = []))
        (nvme_mpath_ctrl_list s) \<and>
      list_all (request_ok s) (admin_requests s) \<and>
      distinct (map fd_mpath_ns (admin_requests s)))"

text \<open>Demotion of the active member \<open>a\<close> of group \<open>m\<close> (lines 3372 and 3373).\<close>

definition demote :: "nat \<Rightarrow> nat \<Rightarrow> kernel \<Rightarrow> kernel" where
  "demote m a s =
     ns_upd a (\<lambda>n. n\<lparr>ns_active := False\<rparr>) (ctrl_upd m (\<lambda>c. c\<lparr>cleanup_done := False\<rparr>) s)"

text \<open>Promotion of the standby \<open>x\<close> of group \<open>m\<close> (lines 1080 and 1081).\<close>

definition promote :: "nat \<Rightarrow> nat \<Rightarrow> kernel \<Rightarrow> kernel" where
  "promote m x s =
     ctrl_upd m (\<lambda>c. c\<lparr>cleanup_done := True\<rparr>) (ns_upd x (\<lambda>n. n\<lparr>ns_active := True\<rparr>) s)"

text \<open>
  What holds of group \<open>m\<close> with aggregate namespace \<open>r\<close> between the
  test-and-set of \<open>nvme_trigger_failover\<close> and the end of the call.
\<close>

definition holding :: "kernel \<Rightarrow> nat \<Rightarrow> nat \<Rightarrow> bool" where
  "holding s m r =
     (fo_inv s \<and> m \<in> set (nvme_mpath_ctrl_list s) \<and>
      (\<exists>rest. mpath_namespace (ctrls s m) = r # rest) \<and> ns_ctrl (nss s r) = m \<and>
      NVME_NS_FO_IN_PROGRESS \<in> ns_flags (nss s r) \<and>
      r \<notin> fd_mpath_ns ` set (admin_requests s))"

section \<open>One wake of the drain task\<close>

text \<open>
  The conditions under which \<open>nvme_mpath_resubmit_bios\<close> detaches the queue of
  the aggregate namespace \<open>v\<close> (lines 1398 to 1417).
\<close>

definition drainable :: "kernel \<Rightarrow> nat \<Rightarrow> bool" where
  "drainable s v =
     (\<not> test_bit_ns NVME_NS_FO_IN_PROGRESS v s \<and>
      (case get_ns_active s v of
         None \<Rightarrow> False
       | Some ns \<Rightarrow> \<not> test_bit_ns NVME_NS_REMOVING ns s) \<and>
      cleanup_done (ctrls s (ns_ctrl (nss s v))) \<and>
      \<not> test_bit_ns NVME_NS_REMOVING v s)"


text \<open>What the registry says, apart from the congestion queues.\<close>

definition same_registry :: "kernel \<Rightarrow> kernel \<Rightarrow> bool" where
  "same_registry s s' =
     (ctrls s' = ctrls s \<and> nvme_mpath_ctrl_list s' = nvme_mpath_ctrl_list s \<and>
      (\<forall>ns. ns_ctrl (nss s' ns) = ns_ctrl (nss s ns) \<and>
            ns_active (nss s' ns) = ns_active (nss s ns) \<and>
            ns_flags (nss s' ns) = ns_flags (nss s ns) \<and>
            ns_bdev (nss s' ns) = ns_bdev (nss s ns)))"

text \<open>
  What a wake is to resubmit for the volume \<open>v\<close>, as pairs of a bio and the
  block device it goes to: when the volume is signaled and drainable, every
  bio parked on it, in queue order, to the block device of the member that
  \<open>get_ns_active\<close> resolves; otherwise nothing.
\<close>

definition resubmissions :: "kernel \<Rightarrow> nat \<Rightarrow> (nat \<times> nat) list" where
  "resubmissions s v =
     (if fq_full (nss s v) \<and> drainable s v
      then (case get_ns_active s v of
              None \<Rightarrow> []
            | Some a \<Rightarrow> map (\<lambda>b. (b, ns_bdev (nss s a))) (fq_cong (nss s v)))
      else [])"





section \<open>Example states\<close>

text \<open>Zeroed records, as \<open>kzalloc\<close> returns them (a bio starts with one reference).\<close>

definition ns_init :: nvme_ns where
  "ns_init = \<lparr>ns_ctrl = 0, ns_mpath_ctrl = None, ns_active = False, ns_flags = {},
     ns_start_time = 0, ns_bdev = 0, fq_cong = [], fq_full = False\<rparr>"

definition ctrl_init :: nvme_ctrl where
  "ctrl_init = \<lparr>state = NVME_CTRL_NEW, ctrl_flags = {}, namespaces = [],
     mpath_namespace = [], cleanup_done = False\<rparr>"

definition bio_init :: bio where
  "bio_init = \<lparr>bi_bdev = 0, bi_status = BLK_STS_OK, bi_flags = 0, bi_idx = 0,
     bi_bvec_done = 0, bi_sector = 0, bi_size = 0, bi_vcnt = 0, bi_phys_segments = 0,
     bi_seg_front_size = 0, bi_seg_back_size = 0, bi_remaining = 1,
     bi_failfast_transport = False, bi_end_io = Submitter_end_io 0, bi_private = 0\<rparr>"

definition priv_init :: nvme_mpath_priv where
  "priv_init = \<lparr>priv_ns = 0, priv_mpath_ns = 0, priv_bi_bdev = 0, priv_bi_flags = 0,
     priv_bi_sector = 0, priv_bi_vcnt = 0, priv_bi_phys_segments = 0, priv_bi_private = 0,
     priv_nr_bytes = 0, priv_bio = 0, priv_bi_end_io = Submitter_end_io 0,
     priv_nr_retries = 0, priv_start_time = 0\<rparr>"

text \<open>
  A volume with two paths.  Controllers 10 and 20 are the physical
  controllers, both LIVE, with namespaces 1 and 2; controller 30 is the
  aggregate controller of the group, namespace 3 its aggregate namespace.
  Member 1 is active, member 2 is the standby, the group is settled.  The
  clock is at 100000 ticks, 250 ticks per second, and the minimum failover
  interval is 60 seconds.
\<close>

definition two_path_volume :: kernel where
  "two_path_volume =
     \<lparr>nss = (\<lambda>a. ns_init)
        (1 := ns_init\<lparr>ns_ctrl := 10, ns_mpath_ctrl := Some 30, ns_active := True,
                      ns_flags := {NVME_NS_MULTIPATH}, ns_bdev := 101\<rparr>,
         2 := ns_init\<lparr>ns_ctrl := 20, ns_mpath_ctrl := Some 30,
                      ns_flags := {NVME_NS_MULTIPATH}, ns_bdev := 102\<rparr>,
         3 := ns_init\<lparr>ns_ctrl := 30, ns_flags := {NVME_NS_ROOT}, ns_bdev := 103\<rparr>),
      ctrls = (\<lambda>a. ctrl_init)
        (10 := ctrl_init\<lparr>state := NVME_CTRL_LIVE, ctrl_flags := {NVME_CTRL_MPATH_CHILD},
                         namespaces := [1]\<rparr>,
         20 := ctrl_init\<lparr>state := NVME_CTRL_LIVE, ctrl_flags := {NVME_CTRL_MPATH_CHILD},
                         namespaces := [2]\<rparr>,
         30 := ctrl_init\<lparr>state := NVME_CTRL_LIVE, ctrl_flags := {NVME_CTRL_MULTIPATH},
                         namespaces := [1, 2], mpath_namespace := [3],
                         cleanup_done := True\<rparr>),
      bios = (\<lambda>a. bio_init),
      privs = (\<lambda>a. priv_init),
      jiffies = 100000, HZ = 250, ns_failover_interval = 60, nvme_max_retries = 5,
      nvme_io_timeout = 30, nvme_mpath_ctrl_list = [30], admin_requests = [],
      delayed_work = [], submitted = [], ended = [], freed = []\<rparr>"

text \<open>
  The same volume with one bio, 7, parked on its congestion queue after an
  error on member 1; 70 is its shadow record, and the submitter's callback is
  700.
\<close>

definition two_path_parked :: kernel where
  "two_path_parked =
     two_path_volume
       \<lparr>nss := (nss two_path_volume)
          (3 := (nss two_path_volume 3)\<lparr>fq_cong := [7], fq_full := True\<rparr>),
        bios := (bios two_path_volume)
          (7 := bio_init\<lparr>bi_bdev := 101, bi_status := BLK_STS_IOERR, bi_size := 4096,
                         bi_failfast_transport := True, bi_end_io := Nvme_mpath_endio,
                         bi_private := 70\<rparr>),
        privs := (privs two_path_volume)
          (70 := priv_init\<lparr>priv_ns := 1, priv_mpath_ns := 3, priv_bi_bdev := 103,
                           priv_nr_bytes := 4096, priv_bio := 7,
                           priv_bi_end_io := Submitter_end_io 700, priv_nr_retries := 4\<rparr>)\<rparr>"

text \<open>The parked volume with the controller of member 1 in RESETTING.\<close>

definition two_path_parked_resetting :: kernel where
  "two_path_parked_resetting =
     ctrl_upd 10 (\<lambda>c. c\<lparr>state := NVME_CTRL_RESETTING\<rparr>) two_path_parked"

text \<open>
  The parked volume 1000 ticks after the standby's timestamp, inside the
  failover interval; and later, outside it, with the cleanup work scheduled.
\<close>

definition two_path_rate_limited :: kernel where
  "two_path_rate_limited = two_path_parked\<lparr>jiffies := 1000\<rparr>"

definition two_path_cleanup_due :: kernel where
  "two_path_cleanup_due = two_path_parked\<lparr>jiffies := 100000, delayed_work := [(30, 250)]\<rparr>"

text \<open>The two-path volume with the controller of member 1 in RESETTING.\<close>

definition two_path_resetting :: kernel where
  "two_path_resetting =
     ctrl_upd 10 (\<lambda>c. c\<lparr>state := NVME_CTRL_RESETTING\<rparr>) two_path_volume"

text \<open>
  The volume unsettled: member 1 has been demoted, its controller is
  RECONNECTING, and the controller of member 2 is DELETING; and the same with
  both controllers RECONNECTING.
\<close>

definition two_path_unsettled :: kernel where
  "two_path_unsettled =
     ctrl_upd 20 (\<lambda>c. c\<lparr>state := NVME_CTRL_DELETING\<rparr>)
       (ctrl_upd 10 (\<lambda>c. c\<lparr>state := NVME_CTRL_RECONNECTING\<rparr>)
          (ctrl_upd 30 (\<lambda>c. c\<lparr>cleanup_done := False\<rparr>)
             (ns_upd 1 (\<lambda>n. n\<lparr>ns_active := False\<rparr>) two_path_volume)))"

definition two_path_reconnecting :: kernel where
  "two_path_reconnecting =
     ctrl_upd 20 (\<lambda>c. c\<lparr>state := NVME_CTRL_RECONNECTING\<rparr>) two_path_unsettled"

text \<open>
  The two-path volume after a failover triggered on controller 10, and after
  the promotion request of that failover has completed with success.
\<close>

definition two_path_demoted :: kernel where
  "two_path_demoted = projr (nvme_trigger_failover Alloc_ok 10 two_path_volume)"

definition two_path_failed_over :: kernel where
  "two_path_failed_over =
     projr (nvme_ns_active_end_io (hd (admin_requests two_path_demoted)) BLK_STS_OK
              (two_path_demoted\<lparr>admin_requests := []\<rparr>))"

text \<open>The set-active requests for member 1 and for member 2 of the volume.\<close>

definition set_active_1 :: nvme_failover_data where
  "set_active_1 = \<lparr>fd_standby_ns = 1, fd_mpath_ns = 3, fd_retries = 3\<rparr>"

definition set_active_2 :: nvme_failover_data where
  "set_active_2 = \<lparr>fd_standby_ns = 2, fd_mpath_ns = 3, fd_retries = 3\<rparr>"

text \<open>
  The two-path volume right after its creation: member 1 was made active and
  the group created around it, the creation request for member 1 (line 3160)
  is still in flight, the FAILOVER_IN_PROGRESS flag of the volume is clear, and
  member 2 has joined as the standby.
\<close>

definition two_path_created :: kernel where
  "two_path_created = two_path_volume\<lparr>admin_requests := [set_active_1]\<rparr>"

text \<open>
  From there: a failover is triggered on controller 10; then the creation
  request completes with success; then either the promotion request of the
  failover completes with success, or a second failover is triggered on
  controller 10 while that promotion request is still in flight.
\<close>

definition two_path_created_demoted :: kernel where
  "two_path_created_demoted = projr (nvme_trigger_failover Alloc_ok 10 two_path_created)"

definition two_path_created_restored :: kernel where
  "two_path_created_restored =
     projr (nvme_ns_active_end_io set_active_1 BLK_STS_OK
              (two_path_created_demoted\<lparr>admin_requests := [set_active_2]\<rparr>))"

definition two_path_both_active :: kernel where
  "two_path_both_active =
     projr (nvme_ns_active_end_io set_active_2 BLK_STS_OK
              (two_path_created_restored\<lparr>admin_requests := []\<rparr>))"

definition two_path_two_failovers :: kernel where
  "two_path_two_failovers =
     projr (nvme_trigger_failover Alloc_ok 10 two_path_created_restored)"

section \<open>Auxiliary lemmas\<close>

subsection \<open>Words\<close>

lemma retries_no_wrap:
  "unat (r :: u8) < unat (m :: u8) \<Longrightarrow> unat (r + 1) = unat r + 1"
proof -
  assume a: "unat r < unat m"
  have "unat m < 2 ^ 8" using unsigned_less [of m, where 'a = nat] by simp
  with a have "unat r + 1 < 256" by simp
  then show ?thesis by (simp add: unat_word_ariths)
qed

lemma unat_ucast_32_64: "unat (ucast (w :: 32 word) :: 64 word) = unat w"
proof -
  have "unat w < 2 ^ 32" using unsigned_less [of w, where 'a = nat] by simp
  then have "unat w < 2 ^ 64" by simp
  then show ?thesis by (simp add: unsigned_ucast_eq take_bit_nat_eq_self)
qed

subsection \<open>Fields after the state updates\<close>

lemma ns_upd_simps [simp]:
  "nss (ns_upd a f s) = (nss s)(a := f (nss s a))"
  "ctrls (ns_upd a f s) = ctrls s"
  "nvme_mpath_ctrl_list (ns_upd a f s) = nvme_mpath_ctrl_list s"
  "admin_requests (ns_upd a f s) = admin_requests s"
  "jiffies (ns_upd a f s) = jiffies s"
  "HZ (ns_upd a f s) = HZ s"
  "delayed_work (ns_upd a f s) = delayed_work s"
  by (simp_all add: ns_upd_def)

lemma ctrl_upd_simps [simp]:
  "ctrls (ctrl_upd a f s) = (ctrls s)(a := f (ctrls s a))"
  "nss (ctrl_upd a f s) = nss s"
  "nvme_mpath_ctrl_list (ctrl_upd a f s) = nvme_mpath_ctrl_list s"
  "admin_requests (ctrl_upd a f s) = admin_requests s"
  "jiffies (ctrl_upd a f s) = jiffies s"
  "HZ (ctrl_upd a f s) = HZ s"
  "delayed_work (ctrl_upd a f s) = delayed_work s"
  by (simp_all add: ctrl_upd_def)

lemma schedule_simps [simp]:
  "ctrls (schedule_delayed_work c d s) = ctrls s"
  "nss (schedule_delayed_work c d s) = nss s"
  "nvme_mpath_ctrl_list (schedule_delayed_work c d s) = nvme_mpath_ctrl_list s"
  "admin_requests (schedule_delayed_work c d s) = admin_requests s"
  "jiffies (schedule_delayed_work c d s) = jiffies s"
  "HZ (schedule_delayed_work c d s) = HZ s"
  "delayed_work (schedule_delayed_work c d s) = delayed_work s @ [(c, d)]"
  by (simp_all add: schedule_delayed_work_def)

lemma set_bit_ns_simps [simp]:
  "nss (set_bit_ns f a s) = (nss s)(a := (nss s a)\<lparr>ns_flags := insert f (ns_flags (nss s a))\<rparr>)"
  "ctrls (set_bit_ns f a s) = ctrls s"
  "nvme_mpath_ctrl_list (set_bit_ns f a s) = nvme_mpath_ctrl_list s"
  "admin_requests (set_bit_ns f a s) = admin_requests s"
  "jiffies (set_bit_ns f a s) = jiffies s"
  "HZ (set_bit_ns f a s) = HZ s"
  "delayed_work (set_bit_ns f a s) = delayed_work s"
  by (simp_all add: set_bit_ns_def)

lemma clear_bit_ns_simps [simp]:
  "nss (clear_bit_ns f a s) = (nss s)(a := (nss s a)\<lparr>ns_flags := ns_flags (nss s a) - {f}\<rparr>)"
  "ctrls (clear_bit_ns f a s) = ctrls s"
  "nvme_mpath_ctrl_list (clear_bit_ns f a s) = nvme_mpath_ctrl_list s"
  "admin_requests (clear_bit_ns f a s) = admin_requests s"
  "jiffies (clear_bit_ns f a s) = jiffies s"
  "HZ (clear_bit_ns f a s) = HZ s"
  "delayed_work (clear_bit_ns f a s) = delayed_work s"
  by (simp_all add: clear_bit_ns_def)

subsection \<open>Links and well-formedness\<close>

lemma same_links_refl [simp]: "same_links s s"
  by (simp add: same_links_def)

lemma same_links_trans: "same_links s s' \<Longrightarrow> same_links s' s'' \<Longrightarrow> same_links s s''"
  unfolding same_links_def by metis

lemma group_wf_links: "same_links s s' \<Longrightarrow> group_wf s' m = group_wf s m"
  unfolding group_wf_def same_links_def by (auto split: list.splits)

lemma mpath_wf_links: 
  assumes "same_links s s'" shows "mpath_wf s' = mpath_wf s"
proof -
  have 1: "nvme_mpath_ctrl_list s' = nvme_mpath_ctrl_list s" 
   and 2: "\<And>ns. ns_mpath_ctrl (nss s' ns) = ns_mpath_ctrl (nss s ns)"
    using assms unfolding same_links_def by blast+
  show ?thesis
    unfolding mpath_wf_def 1 2 group_wf_links [OF assms] ..
qed

lemma wf_group: "mpath_wf s \<Longrightarrow> m \<in> set (nvme_mpath_ctrl_list s) \<Longrightarrow> group_wf s m"
  unfolding mpath_wf_def list_all_iff by blast

lemma wf_distinct: "mpath_wf s \<Longrightarrow> m \<in> set (nvme_mpath_ctrl_list s) \<Longrightarrow> distinct (namespaces (ctrls s m))"
  using wf_group [of s m] unfolding group_wf_def by blast

lemma wf_member: "mpath_wf s \<Longrightarrow> m \<in> set (nvme_mpath_ctrl_list s) \<Longrightarrow>
   ns \<in> set (namespaces (ctrls s m)) \<Longrightarrow> ns_mpath_ctrl (nss s ns) = Some m"
  using wf_group [of s m] unfolding group_wf_def list_all_iff by blast

lemma wf_root: "mpath_wf s \<Longrightarrow> m \<in> set (nvme_mpath_ctrl_list s) \<Longrightarrow>
   \<exists>r rest. mpath_namespace (ctrls s m) = r # rest \<and> ns_ctrl (nss s r) = m"
  using wf_group [of s m] unfolding group_wf_def by (cases "mpath_namespace (ctrls s m)") simp_all

lemma wf_registered: "mpath_wf s \<Longrightarrow> ns_mpath_ctrl (nss s ns) = Some m \<Longrightarrow> m \<in> set (nvme_mpath_ctrl_list s)"
  unfolding mpath_wf_def by blast

lemma active_members_cong:
  "namespaces (ctrls s' m) = namespaces (ctrls s m) \<Longrightarrow>
   (\<And>ns. ns \<in> set (namespaces (ctrls s m)) \<Longrightarrow> ns_active (nss s' ns) = ns_active (nss s ns)) \<Longrightarrow>
   active_members s' m = active_members s m"
  by (simp add: active_members_def cong: filter_cong)

lemma request_ok_mono:
  assumes l: "same_links s s'"
      and a: "\<And>m. ns_mpath_ctrl (nss s (fd_standby_ns d)) = Some m \<Longrightarrow> active_members s m = [] \<Longrightarrow> active_members s' m = []"
      and f: "NVME_NS_FO_IN_PROGRESS \<in> ns_flags (nss s (fd_mpath_ns d)) \<Longrightarrow>
           NVME_NS_FO_IN_PROGRESS \<in> ns_flags (nss s' (fd_mpath_ns d))"
      and r: "request_ok s d"
  shows "request_ok s' d"
proof -
  from r obtain m r0 rest where m: "ns_mpath_ctrl (nss s (fd_standby_ns d)) = Some m"
     and mn: "mpath_namespace (ctrls s m) = r0 # rest" and r0: "r0 = fd_mpath_ns d"
     and fo: "NVME_NS_FO_IN_PROGRESS \<in> ns_flags (nss s (fd_mpath_ns d))"
     and am: "active_members s m = []"
    by (auto simp add: request_ok_def split: option.splits list.splits)
  from l m have m': "ns_mpath_ctrl (nss s' (fd_standby_ns d)) = Some m"
    unfolding same_links_def by simp
  from l mn have mn': "mpath_namespace (ctrls s' m) = r0 # rest"
    unfolding same_links_def by simp
  show ?thesis
    using m' mn' r0 f [OF fo] a [OF m am] by (simp add: request_ok_def)
qed

subsection \<open>The invariant is kept by every step\<close>

lemma fo_inv_wf: "fo_inv s \<Longrightarrow> mpath_wf s"
  unfolding fo_inv_def by blast

lemma fo_inv_one: "fo_inv s \<Longrightarrow> m \<in> set (nvme_mpath_ctrl_list s) \<Longrightarrow> length (active_members s m) \<le> 1"
  unfolding fo_inv_def list_all_iff by blast

lemma fo_inv_unsettled: "fo_inv s \<Longrightarrow> m \<in> set (nvme_mpath_ctrl_list s) \<Longrightarrow>
    \<not> cleanup_done (ctrls s m) \<Longrightarrow> active_members s m = []"
  unfolding fo_inv_def list_all_iff by blast

lemma fo_inv_request: "fo_inv s \<Longrightarrow> d \<in> set (admin_requests s) \<Longrightarrow> request_ok s d"
  unfolding fo_inv_def list_all_iff by blast

lemma fo_inv_distinct: "fo_inv s \<Longrightarrow> distinct (map fd_mpath_ns (admin_requests s))"
  unfolding fo_inv_def by blast

lemma fo_invI:
  assumes "mpath_wf s"
      and "\<And>m. m \<in> set (nvme_mpath_ctrl_list s) \<Longrightarrow> length (active_members s m) \<le> 1"
      and "\<And>m. m \<in> set (nvme_mpath_ctrl_list s) \<Longrightarrow> \<not> cleanup_done (ctrls s m) \<Longrightarrow>
                active_members s m = []"
      and "\<And>d. d \<in> set (admin_requests s) \<Longrightarrow> request_ok s d"
      and "distinct (map fd_mpath_ns (admin_requests s))"
  shows "fo_inv s"
  unfolding fo_inv_def list_all_iff using assms by blast

lemma links_list: "same_links s s' \<Longrightarrow> nvme_mpath_ctrl_list s' = nvme_mpath_ctrl_list s"
  unfolding same_links_def by blast

lemma links_namespaces: "same_links s s' \<Longrightarrow> namespaces (ctrls s' c) = namespaces (ctrls s c)"
  unfolding same_links_def by blast

lemma links_mpath_namespace: "same_links s s' \<Longrightarrow> mpath_namespace (ctrls s' c) = mpath_namespace (ctrls s c)"
  unfolding same_links_def by blast

lemma links_mpath_ctrl: "same_links s s' \<Longrightarrow> ns_mpath_ctrl (nss s' ns) = ns_mpath_ctrl (nss s ns)"
  unfolding same_links_def by blast

lemma links_ns_ctrl: "same_links s s' \<Longrightarrow> ns_ctrl (nss s' ns) = ns_ctrl (nss s ns)"
  unfolding same_links_def by blast

text \<open>A step that keeps links, active flags, settled flags and requests, and
  does not clear the in-progress flag of a request in flight.\<close>

lemma fo_inv_frame:
  assumes i: "fo_inv s" and l: "same_links s s'"
      and rq: "admin_requests s' = admin_requests s"
      and ac: "\<And>ns. ns_active (nss s' ns) = ns_active (nss s ns)"
      and cd: "\<And>c. cleanup_done (ctrls s' c) = cleanup_done (ctrls s c)"
      and fl: "\<And>d. d \<in> set (admin_requests s) \<Longrightarrow>
                 NVME_NS_FO_IN_PROGRESS \<in> ns_flags (nss s (fd_mpath_ns d)) \<Longrightarrow>
                 NVME_NS_FO_IN_PROGRESS \<in> ns_flags (nss s' (fd_mpath_ns d))"
  shows "fo_inv s'"
proof (rule fo_invI)
  have am: "active_members s' m = active_members s m" for m
    by (rule active_members_cong) (simp_all add: links_namespaces [OF l] ac)
  show "mpath_wf s'" using fo_inv_wf [OF i] by (simp add: mpath_wf_links [OF l])
  show "length (active_members s' m) \<le> 1" if "m \<in> set (nvme_mpath_ctrl_list s')" for m
    using that fo_inv_one [OF i, of m] by (simp add: am links_list [OF l])
  show "active_members s' m = []"
    if "m \<in> set (nvme_mpath_ctrl_list s')" "\<not> cleanup_done (ctrls s' m)" for m
    using that fo_inv_unsettled [OF i, of m] by (simp add: am links_list [OF l] cd)
  show "request_ok s' d" if "d \<in> set (admin_requests s')" for d
  proof (rule request_ok_mono [OF l])
    from that have d: "d \<in> set (admin_requests s)" by (simp add: rq)
    show "request_ok s d" by (rule fo_inv_request [OF i d])
    show "NVME_NS_FO_IN_PROGRESS \<in> ns_flags (nss s' (fd_mpath_ns d))"
      if "NVME_NS_FO_IN_PROGRESS \<in> ns_flags (nss s (fd_mpath_ns d))"
      by (rule fl [OF d that])
    show "active_members s' m = []" if "active_members s m = []" for m
      using that by (simp add: am)
  qed
  show "distinct (map fd_mpath_ns (admin_requests s'))"
    using fo_inv_distinct [OF i] by (simp add: rq)
qed

lemma same_links_ns_upd:
  "ns_ctrl (f (nss s a)) = ns_ctrl (nss s a) \<Longrightarrow>
   ns_mpath_ctrl (f (nss s a)) = ns_mpath_ctrl (nss s a) \<Longrightarrow> same_links s (ns_upd a f s)"
  unfolding same_links_def by simp

lemma same_links_ctrl_upd:
  "namespaces (f (ctrls s a)) = namespaces (ctrls s a) \<Longrightarrow>
   mpath_namespace (f (ctrls s a)) = mpath_namespace (ctrls s a) \<Longrightarrow> same_links s (ctrl_upd a f s)"
  unfolding same_links_def by simp

lemma same_links_schedule: "same_links s (schedule_delayed_work c d s)"
  unfolding same_links_def by simp

lemma same_links_set_bit: "same_links s (set_bit_ns f a s)"
  unfolding same_links_def by simp

lemma same_links_clear_bit: "same_links s (clear_bit_ns f a s)"
  unfolding same_links_def by simp

lemma fo_inv_set_bit: "fo_inv s \<Longrightarrow> fo_inv (set_bit_ns f a s)"
  by (erule fo_inv_frame [OF _ same_links_set_bit]) auto

lemma fo_inv_clear_bit:
  "fo_inv s \<Longrightarrow> a \<notin> fd_mpath_ns ` set (admin_requests s) \<Longrightarrow> fo_inv (clear_bit_ns f a s)"
  by (erule fo_inv_frame [OF _ same_links_clear_bit]) auto

lemma fo_inv_schedule: "fo_inv s \<Longrightarrow> fo_inv (schedule_delayed_work c d s)"
  by (erule fo_inv_frame [OF _ same_links_schedule]) simp_all

lemma fo_inv_tick: "fo_inv s \<Longrightarrow> fo_inv (s\<lparr>jiffies := j\<rparr>)"
  by (erule fo_inv_frame) (simp_all add: same_links_def)

lemma active_members_requests [simp]: "active_members (s\<lparr>admin_requests := q\<rparr>) m = active_members s m"
  by (simp add: active_members_def)

lemma request_ok_requests [simp]: "request_ok (s\<lparr>admin_requests := q\<rparr>) d = request_ok s d"
  by (simp add: request_ok_def cong: option.case_cong list.case_cong)

lemma same_links_requests: "same_links s (s\<lparr>admin_requests := q\<rparr>)"
  unfolding same_links_def by simp

lemma fo_inv_enqueue:
  assumes i: "fo_inv s" and ok: "request_ok s d"
      and new: "fd_mpath_ns d \<notin> fd_mpath_ns ` set (admin_requests s)"
  shows "fo_inv (s\<lparr>admin_requests := admin_requests s @ [d]\<rparr>)"
proof (rule fo_invI)
  let ?s' = "s\<lparr>admin_requests := admin_requests s @ [d]\<rparr>"
  show "mpath_wf ?s'"
    using fo_inv_wf [OF i] by (simp add: mpath_wf_links [OF same_links_requests])
  show "length (active_members ?s' m) \<le> 1" if "m \<in> set (nvme_mpath_ctrl_list ?s')" for m
    using that fo_inv_one [OF i, of m] by simp
  show "active_members ?s' m = []"
    if "m \<in> set (nvme_mpath_ctrl_list ?s')" "\<not> cleanup_done (ctrls ?s' m)" for m
    using that fo_inv_unsettled [OF i, of m] by simp
  show "request_ok ?s' d'" if "d' \<in> set (admin_requests ?s')" for d'
    using that ok fo_inv_request [OF i, of d'] by auto
  show "distinct (map fd_mpath_ns (admin_requests ?s'))"
    using fo_inv_distinct [OF i] new by simp
qed

lemma fo_inv_dequeue:
  assumes i: "fo_inv s" and q: "admin_requests s = xs @ d # ys"
  shows "fo_inv (s\<lparr>admin_requests := xs @ ys\<rparr>)"
    and "request_ok s d"
    and "fd_mpath_ns d \<notin> fd_mpath_ns ` set (xs @ ys)"
proof -
  let ?s' = "s\<lparr>admin_requests := xs @ ys\<rparr>"
  show "request_ok s d" using fo_inv_request [OF i, of d] q by simp
  show "fd_mpath_ns d \<notin> fd_mpath_ns ` set (xs @ ys)"
    using fo_inv_distinct [OF i] q by auto
  show "fo_inv ?s'"
  proof (rule fo_invI)
    show "mpath_wf ?s'"
      using fo_inv_wf [OF i] by (simp add: mpath_wf_links [OF same_links_requests])
    show "length (active_members ?s' m) \<le> 1" if "m \<in> set (nvme_mpath_ctrl_list ?s')" for m
      using that fo_inv_one [OF i, of m] by simp
    show "active_members ?s' m = []"
      if "m \<in> set (nvme_mpath_ctrl_list ?s')" "\<not> cleanup_done (ctrls ?s' m)" for m
      using that fo_inv_unsettled [OF i, of m] by simp
    show "request_ok ?s' d'" if "d' \<in> set (admin_requests ?s')" for d'
      using that fo_inv_request [OF i, of d'] q by auto
    show "distinct (map fd_mpath_ns (admin_requests ?s'))"
      using fo_inv_distinct [OF i] q by simp
  qed
qed

lemma active_members_demote:
  "active_members (demote m a s) m' = filter (\<lambda>x. x \<noteq> a) (active_members s m')"
  by (auto simp add: active_members_def demote_def intro: filter_cong)

lemma same_links_demote: "same_links s (demote m a s)"
  unfolding same_links_def demote_def by simp

lemma length_le_one_filter: "length xs \<le> 1 \<Longrightarrow> a \<in> set xs \<Longrightarrow> filter (\<lambda>x. x \<noteq> a) xs = []"
  by (cases xs) auto

lemma fo_inv_demote:
  assumes i: "fo_inv s" and m: "m \<in> set (nvme_mpath_ctrl_list s)"
      and a: "a \<in> set (namespaces (ctrls s m))" and act: "ns_active (nss s a)"
  shows "fo_inv (demote m a s)" and "active_members (demote m a s) m = []"
proof -
  let ?s' = "demote m a s"
  have l: "same_links s ?s'" by (rule same_links_demote)
  have "a \<in> set (active_members s m)" using a act by (simp add: active_members_def)
  with fo_inv_one [OF i m] show e: "active_members ?s' m = []"
    by (simp add: active_members_demote length_le_one_filter)
  have other: "active_members s m' = []" if "m' \<noteq> m" "\<not> cleanup_done (ctrls ?s' m')" 
     "m' \<in> set (nvme_mpath_ctrl_list s)"for m'
    using that fo_inv_unsettled [OF i, of m'] by (simp add: demote_def)
  show "fo_inv ?s'"
  proof (rule fo_invI)
    show "mpath_wf ?s'" using fo_inv_wf [OF i] by (simp add: mpath_wf_links [OF l])
    show "length (active_members ?s' m') \<le> 1" if "m' \<in> set (nvme_mpath_ctrl_list ?s')" for m'
    proof -
      have "length (active_members ?s' m') \<le> length (active_members s m')"
        by (simp add: active_members_demote)
      with fo_inv_one [OF i, of m'] that show ?thesis by (simp add: links_list [OF l])
    qed
    show "active_members ?s' m' = []"
      if "m' \<in> set (nvme_mpath_ctrl_list ?s')" "\<not> cleanup_done (ctrls ?s' m')" for m'
    proof (cases "m' = m")
      case True then show ?thesis using e by simp
    next
      case False
      with that have "active_members s m' = []" by (intro other) (simp_all add: links_list [OF l])
      then show ?thesis by (simp add: active_members_demote)
    qed
    show "request_ok ?s' d" if "d \<in> set (admin_requests ?s')" for d
    proof (rule request_ok_mono [OF l])
      from that have d: "d \<in> set (admin_requests s)" by (simp add: demote_def)
      show "request_ok s d" by (rule fo_inv_request [OF i d])
      show "NVME_NS_FO_IN_PROGRESS \<in> ns_flags (nss ?s' (fd_mpath_ns d))"
        if "NVME_NS_FO_IN_PROGRESS \<in> ns_flags (nss s (fd_mpath_ns d))"
        using that by (auto simp add: demote_def)
      show "active_members ?s' m' = []" if "active_members s m' = []" for m'
        using that by (simp add: active_members_demote)
    qed
    show "distinct (map fd_mpath_ns (admin_requests ?s'))"
      using fo_inv_distinct [OF i] by (simp add: demote_def)
  qed
qed

lemma same_links_promote: "same_links s (promote m x s)"
  unfolding same_links_def promote_def by simp

lemma active_members_promote_other:
  "x \<notin> set (namespaces (ctrls s m')) \<Longrightarrow> active_members (promote m x s) m' = active_members s m'"
  by (auto simp add: active_members_def promote_def intro: filter_cong)

lemma filter_eq_one: "distinct xs \<Longrightarrow> length (filter (\<lambda>y. y = x) xs) \<le> 1"
  by (induction xs) (auto simp add: filter_empty_conv)

lemma active_members_promote_self:
  assumes "active_members s m' = []" "distinct (namespaces (ctrls s m'))"
  shows "length (active_members (promote m x s) m') \<le> 1"
proof -
  have "active_members (promote m x s) m' = filter (\<lambda>y. y = x) (namespaces (ctrls s m'))"
    using assms(1) by (auto simp add: active_members_def promote_def filter_empty_conv intro: filter_cong)
  then show ?thesis using filter_eq_one [OF assms(2)] by simp
qed

lemma fo_inv_promote:
  assumes i: "fo_inv s" and x: "ns_mpath_ctrl (nss s x) = Some m"
      and e: "active_members s m = []"
      and none: "\<And>d. d \<in> set (admin_requests s) \<Longrightarrow> ns_mpath_ctrl (nss s (fd_standby_ns d)) \<noteq> Some m"
  shows "fo_inv (promote m x s)"
proof (rule fo_invI)
  let ?s' = "promote m x s"
  have l: "same_links s ?s'" by (rule same_links_promote)
  have w: "mpath_wf s" by (rule fo_inv_wf [OF i])
  have other: "active_members ?s' m' = active_members s m'"
    if "m' \<in> set (nvme_mpath_ctrl_list s)" "m' \<noteq> m" for m'
  proof (rule active_members_promote_other)
    show "x \<notin> set (namespaces (ctrls s m'))"
      using wf_member [OF w that(1), of x] x that(2) by auto
  qed
  show "mpath_wf ?s'" using w by (simp add: mpath_wf_links [OF l])
  show "length (active_members ?s' m') \<le> 1" if "m' \<in> set (nvme_mpath_ctrl_list ?s')" for m'
  proof (cases "m' = m")
    case True
    with that have "m \<in> set (nvme_mpath_ctrl_list s)" by (simp add: links_list [OF l])
    from active_members_promote_self [OF e wf_distinct [OF w this]] True show ?thesis by simp
  next
    case False
    with that fo_inv_one [OF i, of m'] show ?thesis by (simp add: other links_list [OF l])
  qed
  show "active_members ?s' m' = []"
    if "m' \<in> set (nvme_mpath_ctrl_list ?s')" "\<not> cleanup_done (ctrls ?s' m')" for m'
  proof -
    from that(2) have ne: "m' \<noteq> m" by (auto simp add: promote_def)
    with that have "\<not> cleanup_done (ctrls s m')" by (simp add: promote_def)
    with that(1) fo_inv_unsettled [OF i, of m'] ne show ?thesis
      by (simp add: other links_list [OF l])
  qed
  show "request_ok ?s' d" if "d \<in> set (admin_requests ?s')" for d
  proof (rule request_ok_mono [OF l])
    from that have d: "d \<in> set (admin_requests s)" by (simp add: promote_def)
    show "request_ok s d" by (rule fo_inv_request [OF i d])
    show "NVME_NS_FO_IN_PROGRESS \<in> ns_flags (nss ?s' (fd_mpath_ns d))"
      if "NVME_NS_FO_IN_PROGRESS \<in> ns_flags (nss s (fd_mpath_ns d))"
      using that by (auto simp add: promote_def)
    show "active_members ?s' m' = []"
      if "ns_mpath_ctrl (nss s (fd_standby_ns d)) = Some m'" "active_members s m' = []" for m'
    proof -
      from that(1) none [OF d] have "m' \<noteq> m" by auto
      moreover have "m' \<in> set (nvme_mpath_ctrl_list s)" by (rule wf_registered [OF w that(1)])
      ultimately show ?thesis using that(2) by (simp add: other)
    qed
  qed
  show "distinct (map fd_mpath_ns (admin_requests ?s'))"
    using fo_inv_distinct [OF i] by (simp add: promote_def)
qed

lemma failover_pick_group:
  "failover_pick h xs acc = (Some m, n) \<Longrightarrow>
   fst acc = Some m \<or> (\<exists>x \<in> set xs. ns_mpath_ctrl (h x) = Some m)"
  by (induction xs arbitrary: acc) (auto split: if_splits)

lemma failover_scan_found:
  "failover_scan h xs a0 b0 = (Some a, Some b) \<Longrightarrow>
   (a0 = Some a \<or> (a \<in> set xs \<and> ns_active (h a))) \<and>
   (b0 = Some b \<or> (b \<in> set xs \<and> \<not> ns_active (h b)))"
proof (induction xs arbitrary: a0 b0)
  case Nil
  then show ?case by simp
next
  case (Cons x xs)
  show ?case
  proof (cases "ns_active (h x)")
    case True
    with Cons.prems Cons.IH [of "Some x" b0] show ?thesis
      by (cases b0) (auto simp add: Let_def)
  next
    case False
    with Cons.prems Cons.IH [of a0 "Some x"] show ?thesis
      by (cases a0) (auto simp add: Let_def)
  qed
qed

lemma failover_target_group:
  assumes t: "failover_target s c = Inr (Some (m, r))" and w: "mpath_wf s"
  shows "m \<in> set (nvme_mpath_ctrl_list s)"
    and "\<exists>rest. mpath_namespace (ctrls s m) = r # rest"
    and "ns_ctrl (nss s r) = m"
proof -
  from t obtain n where p: "failover_pick (nss s) (namespaces (ctrls s c)) (None, None) = (Some m, n)"
    and mn: "\<exists>rest. mpath_namespace (ctrls s m) = r # rest"
    by (auto simp add: failover_target_def split: if_splits prod.splits option.splits list.splits)
  from failover_pick_group [OF p] obtain x where "ns_mpath_ctrl (nss s x) = Some m" by auto
  then show m: "m \<in> set (nvme_mpath_ctrl_list s)" by (rule wf_registered [OF w])
  show "\<exists>rest. mpath_namespace (ctrls s m) = r # rest" by (rule mn)
  from wf_root [OF w m] mn show "ns_ctrl (nss s r) = m" by auto
qed

lemma request_root_flag:
  "request_ok s d \<Longrightarrow> NVME_NS_FO_IN_PROGRESS \<in> ns_flags (nss s (fd_mpath_ns d))"
  by (auto simp add: request_ok_def split: option.splits)

lemma request_root_group:
  "request_ok s d \<Longrightarrow> ns_mpath_ctrl (nss s (fd_standby_ns d)) = Some m \<Longrightarrow>
   mpath_namespace (ctrls s m) = r # rest \<Longrightarrow> fd_mpath_ns d = r"
  by (auto simp add: request_ok_def split: option.splits list.splits)

lemma request_okI:
  "ns_mpath_ctrl (nss s x) = Some m \<Longrightarrow> mpath_namespace (ctrls s m) = r # rest \<Longrightarrow>
   NVME_NS_FO_IN_PROGRESS \<in> ns_flags (nss s r) \<Longrightarrow> active_members s m = [] \<Longrightarrow>
   request_ok s \<lparr>fd_standby_ns = x, fd_mpath_ns = r, fd_retries = k\<rparr>"
  by (simp add: request_ok_def)

lemma no_request_without_flag:
  assumes i: "fo_inv s" and f: "NVME_NS_FO_IN_PROGRESS \<notin> ns_flags (nss s r)"
  shows "r \<notin> fd_mpath_ns ` set (admin_requests s)"
proof
  assume "r \<in> fd_mpath_ns ` set (admin_requests s)"
  then obtain d where d: "d \<in> set (admin_requests s)" and r: "fd_mpath_ns d = r" by auto
  from request_root_flag [OF fo_inv_request [OF i d]] r f show False by simp
qed

lemma holding_release: "holding s m r \<Longrightarrow> fo_inv (clear_bit_ns NVME_NS_FO_IN_PROGRESS r s)"
  unfolding holding_def by (blast intro: fo_inv_clear_bit)

lemma holding_request:
  assumes h: "holding s m r" and x: "x \<in> set (namespaces (ctrls s m))"
      and e: "active_members s m = []"
  shows "fo_inv (s\<lparr>admin_requests := admin_requests s @
            [\<lparr>fd_standby_ns = x, fd_mpath_ns = r, fd_retries = k\<rparr>]\<rparr>)"
proof (rule fo_inv_enqueue)
  from h show i: "fo_inv s" unfolding holding_def by blast
  from h obtain rest where mn: "mpath_namespace (ctrls s m) = r # rest"
    and ml: "m \<in> set (nvme_mpath_ctrl_list s)"
    and f: "NVME_NS_FO_IN_PROGRESS \<in> ns_flags (nss s r)"
    unfolding holding_def by blast
  from wf_member [OF fo_inv_wf [OF i] ml x]
  show "request_ok s \<lparr>fd_standby_ns = x, fd_mpath_ns = r, fd_retries = k\<rparr>"
    by (rule request_okI [OF _ mn f e])
  from h show "fd_mpath_ns \<lparr>fd_standby_ns = x, fd_mpath_ns = r, fd_retries = k\<rparr>
        \<notin> fd_mpath_ns ` set (admin_requests s)"
    unfolding holding_def by simp
qed

lemma set_ns_active_cases:
  "nvme_set_ns_active alloc x r k s = (ret, s') \<Longrightarrow>
   (ret = 0 \<and> s' = s\<lparr>admin_requests := admin_requests s @
            [\<lparr>fd_standby_ns = x, fd_mpath_ns = r, fd_retries = k\<rparr>]\<rparr>) \<or>
   (ret \<noteq> 0 \<and> s' = s)"
  by (cases alloc) (auto simp add: nvme_set_ns_active_def elim: neg_errno.elims)

lemma update_active_inv:
  assumes h: "holding s m r" and e: "active_members s m = []"
      and u: "nvme_update_active alloc (Some r) s = Inr (ret, s')"
  shows "fo_inv s'" 
proof -
  from h have rc: "ns_ctrl (nss s r) = m" unfolding holding_def by blast
  let ?P = "\<lambda>ns. \<not> ns_active (nss s ns) \<and>
                  state (ctrls s (ns_ctrl (nss s ns))) \<noteq> NVME_CTRL_RECONNECTING"
  show ?thesis
  proof (cases "find ?P (namespaces (ctrls s m))")
    case None
    with u rc have "s' = clear_bit_ns NVME_NS_FO_IN_PROGRESS r s"
      by (simp add: nvme_update_active_def deref_def)
    then show ?thesis using holding_release [OF h] by simp
  next
    case (Some x)
    then have x: "x \<in> set (namespaces (ctrls s m))" by (auto simp add: find_Some_iff)
    obtain ret1 s1 where sa: "nvme_set_ns_active alloc x r NVME_FAILOVER_RETRIES s = (ret1, s1)"
      by (cases "nvme_set_ns_active alloc x r NVME_FAILOVER_RETRIES s")
    from u rc Some sa have s': "s' = (if ret1 \<noteq> 0 then clear_bit_ns NVME_NS_FO_IN_PROGRESS r s1 else s1)"
      by (auto simp add: nvme_update_active_def deref_def split: if_splits)
    from set_ns_active_cases [OF sa] show ?thesis
    proof
      assume "ret1 = 0 \<and> s1 = s\<lparr>admin_requests := admin_requests s @
            [\<lparr>fd_standby_ns = x, fd_mpath_ns = r, fd_retries = NVME_FAILOVER_RETRIES\<rparr>]\<rparr>"
      with s' holding_request [OF h x e] show ?thesis by simp
    next
      assume "ret1 \<noteq> 0 \<and> s1 = s"
      with s' holding_release [OF h] show ?thesis by simp
    qed
  qed
qed

lemma holding_frame:
  assumes h: "holding s m r" and i': "fo_inv s'" and l: "same_links s s'"
      and rq: "admin_requests s' = admin_requests s"
      and f: "NVME_NS_FO_IN_PROGRESS \<in> ns_flags (nss s' r)"
  shows "holding s' m r"
  using h i' f unfolding holding_def
  by (simp add: links_list [OF l] links_mpath_namespace [OF l] links_ns_ctrl [OF l] rq)

lemma failover_switch_inv:
  assumes h: "holding s m r"
      and a: "a \<in> set (namespaces (ctrls s m))" and act: "ns_active (nss s a)"
      and b: "b \<in> set (namespaces (ctrls s m))"
      and sw: "failover_switch alloc m r a b s = Inr s'"
  shows "fo_inv s'"
proof -
  from h have i: "fo_inv s" and ml: "m \<in> set (nvme_mpath_ctrl_list s)"
    unfolding holding_def by blast+
  have am: "ns_mpath_ctrl (nss s a) = Some m"
    by (rule wf_member [OF fo_inv_wf [OF i] ml a])
  let ?rel = "clear_bit_ns NVME_NS_FO_IN_PROGRESS r s"
  have rel: "fo_inv ?rel" by (rule holding_release [OF h])
  show ?thesis
  proof (cases "a = b \<or> failover_too_soon s b")
    case True
    with sw have "s' = ?rel \<or> s' = schedule_delayed_work m (ucast (HZ s)) ?rel"
      by (auto simp add: failover_switch_def split: if_splits)
    with rel show ?thesis by (auto intro: fo_inv_schedule)
  next
    case False
    let ?s2 = "demote m a s"
    let ?s3 = "ns_upd a (\<lambda>n. n\<lparr>ns_start_time := jiffies ?s2\<rparr>) ?s2"
    obtain ret s4 where sa: "nvme_set_ns_active alloc b r NVME_FAILOVER_RETRIES ?s3 = (ret, s4)"
      by (cases "nvme_set_ns_active alloc b r NVME_FAILOVER_RETRIES ?s3")
    from sw False am sa
    have s': "s' = (if ret \<noteq> 0
                    then schedule_delayed_work m (ucast (HZ s4))
                           (clear_bit_ns NVME_NS_FO_IN_PROGRESS r s4)
                    else s4)"
      by (auto simp add: failover_switch_def deref_def demote_def Let_def split: if_splits)
    have i2: "fo_inv ?s2" and e2: "active_members ?s2 m = []"
      by (rule fo_inv_demote [OF i ml a act])+
    have l23: "same_links ?s2 ?s3" by (rule same_links_ns_upd) simp_all
    have i3: "fo_inv ?s3"
      by (rule fo_inv_frame [OF i2 l23]) auto
    have "active_members ?s3 m = active_members ?s2 m"
      by (rule active_members_cong) simp_all
    with e2 have e3: "active_members ?s3 m = []" by simp
    have l3: "same_links s ?s3"
      by (rule same_links_trans [OF same_links_demote l23])
    have f3: "NVME_NS_FO_IN_PROGRESS \<in> ns_flags (nss ?s3 r)"
      using h unfolding holding_def by (auto simp add: demote_def)
    have h3: "holding ?s3 m r"
      by (rule holding_frame [OF h i3 l3 _ f3]) (simp add: demote_def)
    have b3: "b \<in> set (namespaces (ctrls ?s3 m))"
      using b links_namespaces [OF l3, of m] by simp
    from set_ns_active_cases [OF sa] show ?thesis
    proof
      assume "ret = 0 \<and> s4 = ?s3\<lparr>admin_requests := admin_requests ?s3 @
            [\<lparr>fd_standby_ns = b, fd_mpath_ns = r, fd_retries = NVME_FAILOVER_RETRIES\<rparr>]\<rparr>"
      with s' holding_request [OF h3 b3 e3] show ?thesis by simp
    next
      assume "ret \<noteq> 0 \<and> s4 = ?s3"
      with s' holding_release [OF h3] show ?thesis by (simp add: fo_inv_schedule)
    qed
  qed
qed

lemma trigger_failover_inv:
  assumes i: "fo_inv s" and t: "nvme_trigger_failover alloc c s = Inr s'"
  shows "fo_inv s'"
proof (cases "failover_target s c")
  case (Inl e)
  with t show ?thesis by (simp add: nvme_trigger_failover_def)
next
  case (Inr tgt)
  show ?thesis
  proof (cases tgt)
    case None
    with Inr t i show ?thesis by (simp add: nvme_trigger_failover_def)
  next
    case (Some mr)
    obtain m r where mr: "mr = (m, r)" by (cases mr)
    with Inr Some have tg: "failover_target s c = Inr (Some (m, r))" by simp
    note g = failover_target_group [OF tg fo_inv_wf [OF i]]
    show ?thesis
    proof (cases "test_bit_ns NVME_NS_FO_IN_PROGRESS r s")
      case True
      with tg t i show ?thesis by (simp add: nvme_trigger_failover_def)
    next
      case False
      let ?s1 = "set_bit_ns NVME_NS_FO_IN_PROGRESS r s"
      have i1: "fo_inv ?s1" by (rule fo_inv_set_bit [OF i])
      from False have "r \<notin> fd_mpath_ns ` set (admin_requests s)"
        by (intro no_request_without_flag [OF i]) (simp add: test_bit_ns_def)
      with i1 g have h1: "holding ?s1 m r"
        unfolding holding_def by simp
      have rc1: "ns_ctrl (nss ?s1 r) = m" using g(3) by simp
      show ?thesis
      proof (cases "cleanup_done (ctrls s m)")
        case unsettled: False
        then have e1: "active_members ?s1 m = []"
          using fo_inv_unsettled [OF i1, of m] g(1) by simp
        from t tg False unsettled obtain ret s2
          where u: "nvme_update_active alloc (Some r) ?s1 = Inr (ret, s2)"
            and s': "s' = (if ret = 0 then schedule_delayed_work m (ucast (HZ s2)) s2 else s2)"
          by (auto simp add: nvme_trigger_failover_def Let_def split: sum.splits if_splits)
        from update_active_inv [OF h1 e1 u] s' show ?thesis
          by (simp add: fo_inv_schedule)
      next
        case settled: True
        show ?thesis
        proof (cases "test_bit_ns NVME_NS_ROOT r ?s1")
          case noroot: False
          with t tg False settled have "s' = ?s1"
            by (simp add: nvme_trigger_failover_def Let_def)
          with i1 show ?thesis by simp
        next
          case root: True
          obtain oa ob where sc: "failover_scan (nss ?s1) (namespaces (ctrls ?s1 m)) None None = (oa, ob)"
            by (cases "failover_scan (nss ?s1) (namespaces (ctrls ?s1 m)) None None")
          show ?thesis
          proof (cases oa)
            case None
            with t tg False settled root sc rc1 have "s' = ?s1"
              by (simp add: nvme_trigger_failover_def Let_def)
            with i1 show ?thesis by simp
          next
            case (Some a)
            note a = this
            show ?thesis
            proof (cases ob)
              case None
              with t tg False settled root sc rc1 a
              have "s' = clear_bit_ns NVME_NS_FO_IN_PROGRESS r ?s1"
                by (simp add: nvme_trigger_failover_def Let_def)
              with holding_release [OF h1] show ?thesis by simp
            next
              case (Some b)
              with t tg False settled root sc rc1 a
              have sw: "failover_switch alloc m r a b ?s1 = Inr s'"
                by (simp add: nvme_trigger_failover_def Let_def)
              from sc a Some failover_scan_found [of "nss ?s1" "namespaces (ctrls ?s1 m)" None None a b]
              have "a \<in> set (namespaces (ctrls ?s1 m))" "ns_active (nss ?s1 a)"
                   "b \<in> set (namespaces (ctrls ?s1 m))"
                by simp_all
              from failover_switch_inv [OF h1 this sw] show ?thesis .
            qed
          qed
        qed
      qed
    qed
  qed
qed

lemma end_io_inv:
  assumes i: "fo_inv s" and q: "admin_requests s = xs @ d # ys"
      and e: "nvme_ns_active_end_io d error (s\<lparr>admin_requests := xs @ ys\<rparr>) = Inr s'"
  shows "fo_inv s'"
proof -
  let ?s0 = "s\<lparr>admin_requests := xs @ ys\<rparr>"
  let ?x = "fd_standby_ns d" and ?r = "fd_mpath_ns d"
  note dq = fo_inv_dequeue [OF i q]
  have i0: "fo_inv ?s0" by (rule dq(1))
  have ok0: "request_ok ?s0 d" using dq(2) by simp
  from ok0 obtain m rest where m: "ns_mpath_ctrl (nss ?s0 ?x) = Some m"
    and mn: "mpath_namespace (ctrls ?s0 m) = ?r # rest"
    and em: "active_members ?s0 m = []"
    by (auto simp add: request_ok_def split: option.splits list.splits)
  have fresh: "?r \<notin> fd_mpath_ns ` set (admin_requests ?s0)" using dq(3) by simp
  show ?thesis
  proof (cases "error = BLK_STS_OK")
    case True
    let ?s1 = "promote m ?x ?s0"
    have none: "ns_mpath_ctrl (nss ?s0 (fd_standby_ns d')) \<noteq> Some m"
      if d': "d' \<in> set (admin_requests ?s0)" for d'
    proof
      assume "ns_mpath_ctrl (nss ?s0 (fd_standby_ns d')) = Some m"
      from request_root_group [OF fo_inv_request [OF i0 d'] this mn]
      have "fd_mpath_ns d' = ?r" .
      with d' have "?r \<in> fd_mpath_ns ` set (admin_requests ?s0)" by (metis imageI)
      with fresh show False by blast
    qed
    have i1: "fo_inv ?s1" by (rule fo_inv_promote [OF i0 m em none])
    have "?r \<notin> fd_mpath_ns ` set (admin_requests ?s1)"
      using fresh by (simp add: promote_def)
    from fo_inv_clear_bit [OF i1 this, of NVME_NS_FO_IN_PROGRESS]
    show ?thesis using e m True
      by (simp add: nvme_ns_active_end_io_def deref_def promote_def Let_def)
  next
    case False
    from e m False
    have "s' = schedule_delayed_work m (ucast (HZ s))
                 (clear_bit_ns NVME_NS_FO_IN_PROGRESS ?r ?s0)"
      by (simp add: nvme_ns_active_end_io_def deref_def Let_def)
    with fo_inv_schedule [OF fo_inv_clear_bit [OF i0 fresh, of NVME_NS_FO_IN_PROGRESS]]
    show ?thesis by simp
  qed
qed

lemma settled_inv: "settled s \<Longrightarrow> fo_inv s"
  unfolding settled_def fo_inv_def list_all_iff by simp

lemma failover_step_inv: "failover_step s s' \<Longrightarrow> fo_inv s \<Longrightarrow> fo_inv s'"
  by (induction rule: failover_step.induct)
     (blast intro: trigger_failover_inv end_io_inv fo_inv_tick)+

lemma reaches_inv: "reaches s0 s \<Longrightarrow> fo_inv s0 \<Longrightarrow> fo_inv s"
  by (induction rule: reaches.induct) (blast intro: failover_step_inv)+

text \<open>
  From a settled state, where no set-active request is in flight, every group
  keeps at most one active member, the requests in flight belong to distinct
  volumes, and the flag of a volume is set while its request is in flight.
\<close>

lemma settled_at_most_one_active:
  "settled s0 \<Longrightarrow> reaches s0 s \<Longrightarrow> m \<in> set (nvme_mpath_ctrl_list s) \<Longrightarrow>
   length (active_members s m) \<le> 1"
  by (rule fo_inv_one [OF reaches_inv [OF _ settled_inv]])

lemma settled_one_request_per_volume:
  assumes "settled s0" and "reaches s0 s"
  shows "distinct (map fd_mpath_ns (admin_requests s))"
    and "list_all (\<lambda>d. test_bit_ns NVME_NS_FO_IN_PROGRESS (fd_mpath_ns d) s) (admin_requests s)"
proof -
  from assms have i: "fo_inv s" by (blast intro: reaches_inv settled_inv)
  then show "distinct (map fd_mpath_ns (admin_requests s))" by (rule fo_inv_distinct)
  show "list_all (\<lambda>d. test_bit_ns NVME_NS_FO_IN_PROGRESS (fd_mpath_ns d) s) (admin_requests s)"
    unfolding list_all_iff test_bit_ns_def
    using request_root_flag [OF fo_inv_request [OF i]] by blast
qed

lemma settled_built: "settled s \<Longrightarrow> built s"
  by (simp add: settled_def built_def)

text \<open>
  A call of \<open>nvme_trigger_failover\<close> that resolves a volume whose
  FAILOVER_IN_PROGRESS flag is set changes nothing.
\<close>

lemma trigger_failover_flag_set:
  "failover_target s ctrl = Inr (Some (mpath_ctrl, mpath_ns)) \<Longrightarrow>
   test_bit_ns NVME_NS_FO_IN_PROGRESS mpath_ns s \<Longrightarrow>
   nvme_trigger_failover alloc ctrl s = Inr s"
  by (simp add: nvme_trigger_failover_def)

subsection \<open>The rate limit, and taking and releasing the flag\<close>

lemma clear_set_bit: "f \<notin> ns_flags (nss s a) \<Longrightarrow> clear_bit_ns f a (set_bit_ns f a s) = s"
  by (simp add: clear_bit_ns_def set_bit_ns_def ns_upd_def)

lemma failover_scan_cong:
  "(\<And>x. ns_active (h' x) = ns_active (h x)) \<Longrightarrow>
   failover_scan h' xs a b = failover_scan h xs a b"
  by (induction xs arbitrary: a b) (auto simp add: Let_def)

lemma too_soon_nat:
  assumes "unat (ns_failover_interval s) * unat (HZ s) < 2 ^ 32"
  shows "failover_too_soon s b =
     (unat (jiffies s - ns_start_time (nss s b)) < unat (ns_failover_interval s) * unat (HZ s))"
proof -
  have "unat (ns_failover_interval s * HZ s) = unat (ns_failover_interval s) * unat (HZ s)"
    using assms by (simp add: unat_mult_lem [symmetric])
  then show ?thesis
    by (simp add: failover_too_soon_def word_less_nat_alt unat_ucast_32_64)
qed

subsection \<open>Cancelling and parking\<close>

lemma cancel_bio_fields:
  "nss (cancel_bio b s) = nss s"
  "ctrls (cancel_bio b s) = ctrls s"
  "admin_requests (cancel_bio b s) = admin_requests s"
  "submitted (cancel_bio b s) = submitted s"
  by (simp_all add: cancel_bio_def Let_def)

lemma fold_cancel_fields:
  "nss (fold cancel_bio bs s) = nss s"
  "ctrls (fold cancel_bio bs s) = ctrls s"
  "admin_requests (fold cancel_bio bs s) = admin_requests s"
  "submitted (fold cancel_bio bs s) = submitted s"
  by (induction bs arbitrary: s) (simp_all add: cancel_bio_fields)

text \<open>
  \<open>nvme_mpath_cancel_ios\<close> faults exactly on a queue that holds bios without
  being signaled.  \<open>nvme_mpath_retry_bio\<close>, which parks the bios, leaves the
  queue signaled.
\<close>

lemma cancel_ios_faults:
  "isl (nvme_mpath_cancel_ios v s) \<longleftrightarrow> fq_cong (nss s v) \<noteq> [] \<and> \<not> fq_full (nss s v)"
  by (simp add: nvme_mpath_cancel_ios_def remove_wait_queue_def Let_def)

lemma retry_bio_signals:
  "fq_full (nss (nvme_mpath_retry_bio b s) (priv_mpath_ns (privs s (bi_private (bios s b))))) \<and>
   fq_cong (nss (nvme_mpath_retry_bio b s) (priv_mpath_ns (privs s (bi_private (bios s b)))))
     = fq_cong (nss s (priv_mpath_ns (privs s (bi_private (bios s b))))) @ [b]"
  by (simp add: nvme_mpath_retry_bio_def Let_def)

text \<open>
  The cleanup work is no failover: it issues no set-active request, changes no
  active flag, no flag bit and no settled flag, and submits nothing.
\<close>

lemma flush_io_work_no_failover:
  assumes "nvme_mpath_flush_io_work m s = Inr s'"
  shows "admin_requests s' = admin_requests s"
    and "ns_active (nss s' x) = ns_active (nss s x)"
    and "ns_flags (nss s' x) = ns_flags (nss s x)"
    and "submitted s' = submitted s"
    and "cleanup_done (ctrls s' c) = cleanup_done (ctrls s c)"
  using assms
  by (auto simp add: nvme_mpath_flush_io_work_def nvme_mpath_cancel_ios_def
        remove_wait_queue_def Let_def schedule_delayed_work_def ns_upd_def fold_cancel_fields
        split: list.splits if_splits)

subsection \<open>The drain loop\<close>

lemma resubmit_bio_fields [simp]:
  "nss (resubmit_bio ns b s) = nss s"
  "ctrls (resubmit_bio ns b s) = ctrls s"
  "nvme_mpath_ctrl_list (resubmit_bio ns b s) = nvme_mpath_ctrl_list s"
  by (simp_all add: resubmit_bio_def Let_def)



lemma fold_resubmit_fields [simp]:
  "nss (fold (resubmit_bio ns) bs s) = nss s"
  "ctrls (fold (resubmit_bio ns) bs s) = ctrls s"
  "nvme_mpath_ctrl_list (fold (resubmit_bio ns) bs s) = nvme_mpath_ctrl_list s"
  by (induction bs arbitrary: s) simp_all







lemma same_registry_refl [simp]: "same_registry s s"
  by (simp add: same_registry_def)







lemma flag_set_nothing_due:
  "test_bit_ns NVME_NS_FO_IN_PROGRESS v s \<Longrightarrow> resubmissions s v = []"
  by (simp add: resubmissions_def drainable_def)













subsection \<open>The example states\<close>

lemmas ex_defs = two_path_volume_def two_path_parked_def two_path_unsettled_def
  two_path_resetting_def two_path_rate_limited_def two_path_cleanup_due_def
  two_path_reconnecting_def two_path_parked_resetting_def
  ns_init_def ctrl_init_def bio_init_def priv_init_def

lemmas op_defs = nvme_trigger_failover_def failover_target_def
  test_bit_ns_def set_bit_ns_def clear_bit_ns_def ns_upd_def ctrl_upd_def failover_switch_def
  failover_too_soon_def deref_def nvme_set_ns_active_def NVME_FAILOVER_RETRIES_def
  schedule_delayed_work_def nvme_update_active_def nvme_mpath_flush_io_work_def
  nvme_mpath_cancel_ios_def cancel_bio_def get_ns_state_def nvme_ns_active_end_io_def
  nvme_mpath_kthread_wake_def nvme_mpath_resubmit_bios_def get_ns_active_def
  resubmit_bio_def remove_wait_queue_def

lemma two_path_volume_settled: "settled two_path_volume"
  by (auto simp add: settled_def mpath_wf_def group_wf_def active_members_def two_path_volume_def ns_init_def ctrl_init_def)

lemma demoted_eq: "nvme_trigger_failover Alloc_ok 10 two_path_volume = Inr two_path_demoted"
  by (simp add: two_path_demoted_def ex_defs op_defs Let_def)

lemma demoted_requests: "admin_requests two_path_demoted = [\<lparr>fd_standby_ns = 2, fd_mpath_ns = 3, fd_retries = 3\<rparr>]"
  by (simp add: two_path_demoted_def ex_defs op_defs Let_def)

lemma failed_over_eq:
  "nvme_ns_active_end_io \<lparr>fd_standby_ns = 2, fd_mpath_ns = 3, fd_retries = 3\<rparr> BLK_STS_OK
     (two_path_demoted\<lparr>admin_requests := [] @ []\<rparr>) = Inr two_path_failed_over"
  by (simp add: two_path_failed_over_def demoted_requests)
     (simp add: two_path_demoted_def ex_defs op_defs Let_def)

lemma failed_over_reaches: "reaches two_path_volume two_path_failed_over"
proof -
  have "reaches two_path_volume two_path_demoted"
    by (rule reaches.step [OF reaches.start]) (rule failover_step.trigger [OF demoted_eq])
  then show ?thesis
    by (rule reaches.step)
       (rule failover_step.complete [where xs = "[]" and ys = "[]", OF _ failed_over_eq],
        simp add: demoted_requests)
qed

lemma failed_over_active: "active_members two_path_failed_over 30 = [2]"
  by (simp add: two_path_failed_over_def demoted_requests)
     (simp add: two_path_demoted_def active_members_def ex_defs op_defs Let_def)

text \<open>
  The volume right after its creation, and the two runs from there.
\<close>

lemmas created_defs = two_path_created_def set_active_1_def set_active_2_def

lemma created_built: "built two_path_created"
  by (auto simp add: built_def creation_request_def mpath_wf_def group_wf_def active_members_def
        created_defs two_path_volume_def ns_init_def ctrl_init_def NVME_FAILOVER_RETRIES_def)

lemma created_fields:
  "active_members two_path_created 30 = [1] \<and>
   admin_requests two_path_created = [set_active_1] \<and>
   \<not> test_bit_ns NVME_NS_FO_IN_PROGRESS 3 two_path_created"
  by (simp add: active_members_def test_bit_ns_def created_defs ex_defs)

lemma created_demoted_isr: "\<not> isl (nvme_trigger_failover Alloc_ok 10 two_path_created)"
  by (simp add: created_defs ex_defs op_defs Let_def)

lemma created_demoted_eq:
  "nvme_trigger_failover Alloc_ok 10 two_path_created = Inr two_path_created_demoted"
  using created_demoted_isr by (simp add: two_path_created_demoted_def)

lemma created_demoted_fields:
  "active_members two_path_created_demoted 30 = [] \<and>
   admin_requests two_path_created_demoted = [set_active_1, set_active_2] \<and>
   test_bit_ns NVME_NS_FO_IN_PROGRESS 3 two_path_created_demoted"
  by (simp add: two_path_created_demoted_def active_members_def created_defs ex_defs op_defs Let_def)

lemma created_demoted_target:
  "failover_target two_path_created_demoted 10 = Inr (Some (30, 3))"
  by (simp add: two_path_created_demoted_def created_defs ex_defs op_defs Let_def)

lemma created_demoted_noop:
  "nvme_trigger_failover Alloc_ok 10 two_path_created_demoted = Inr two_path_created_demoted"
  using created_demoted_target created_demoted_fields
  by (simp add: trigger_failover_flag_set)

lemmas step_defs = two_path_created_demoted_def two_path_created_restored_def
  two_path_both_active_def two_path_two_failovers_def

lemma created_restored_isr:
  "\<not> isl (nvme_ns_active_end_io set_active_1 BLK_STS_OK
            (two_path_created_demoted\<lparr>admin_requests := [set_active_2]\<rparr>))"
  by (simp add: step_defs created_defs ex_defs op_defs Let_def)

lemma created_restored_eq:
  "nvme_ns_active_end_io set_active_1 BLK_STS_OK
     (two_path_created_demoted\<lparr>admin_requests := [set_active_2]\<rparr>)
     = Inr two_path_created_restored"
  using created_restored_isr by (simp add: two_path_created_restored_def)

lemma created_restored_fields:
  "active_members two_path_created_restored 30 = [1] \<and>
   admin_requests two_path_created_restored = [set_active_2] \<and>
   \<not> test_bit_ns NVME_NS_FO_IN_PROGRESS 3 two_path_created_restored"
  by (simp add: step_defs active_members_def created_defs ex_defs op_defs Let_def)

lemma both_active_isr:
  "\<not> isl (nvme_ns_active_end_io set_active_2 BLK_STS_OK
            (two_path_created_restored\<lparr>admin_requests := []\<rparr>))"
  by (simp add: step_defs created_defs ex_defs op_defs Let_def)

lemma both_active_eq:
  "nvme_ns_active_end_io set_active_2 BLK_STS_OK
     (two_path_created_restored\<lparr>admin_requests := []\<rparr>)
     = Inr two_path_both_active"
  using both_active_isr by (simp add: two_path_both_active_def)

lemma both_active_fields:
  "nvme_mpath_ctrl_list two_path_both_active = [30] \<and>
   active_members two_path_both_active 30 = [1, 2]"
  by (simp add: step_defs active_members_def created_defs ex_defs op_defs Let_def)

lemma complete_first:
  "admin_requests s = d # ys \<Longrightarrow>
   nvme_ns_active_end_io d error (s\<lparr>admin_requests := ys\<rparr>) = Inr s' \<Longrightarrow>
   failover_step s s'"
  using failover_step.complete [of s "[]" d ys error s'] by simp

lemma created_restored_reaches: "reaches two_path_created two_path_created_restored"
proof -
  have "reaches two_path_created two_path_created_demoted"
    by (rule reaches.step [OF reaches.start])
       (rule failover_step.trigger [OF created_demoted_eq])
  then show ?thesis
    by (rule reaches.step)
       (rule complete_first [OF _ created_restored_eq], simp add: created_demoted_fields)
qed

lemma both_active_reaches: "reaches two_path_created two_path_both_active"
  by (rule reaches.step [OF created_restored_reaches])
     (rule complete_first [OF _ both_active_eq], simp add: created_restored_fields)

lemma two_failovers_isr:
  "\<not> isl (nvme_trigger_failover Alloc_ok 10 two_path_created_restored)"
  by (simp add: step_defs created_defs ex_defs op_defs Let_def)

lemma two_failovers_eq:
  "nvme_trigger_failover Alloc_ok 10 two_path_created_restored = Inr two_path_two_failovers"
  using two_failovers_isr by (simp add: two_path_two_failovers_def)

lemma two_failovers_fields:
  "test_bit_ns NVME_NS_FO_IN_PROGRESS 3 two_path_two_failovers \<and>
   admin_requests two_path_two_failovers = [set_active_2, set_active_2]"
  by (simp add: step_defs created_defs ex_defs op_defs Let_def)

lemma two_failovers_reaches: "reaches two_path_created two_path_two_failovers"
  by (rule reaches.step [OF created_restored_reaches])
     (rule failover_step.trigger [OF two_failovers_eq])

section \<open>The claims\<close>

subsection \<open>Controller state machine\<close>

text \<open>
  C2, as amended.  For every controller and every requested new state,
  \<open>nvme_change_ctrl_state\<close> returns true and sets the state to the new state
  exactly when the pair (old state, new state) is in the table
  NEW to LIVE or RESETTING; LIVE to RESETTING, RECONNECTING or DELETING;
  RESETTING to LIVE or DELETING; RECONNECTING to LIVE or DELETING; DELETING to
  DEAD.  For every other pair, among them (NEW, DELETING), it returns false and
  leaves the controller unchanged.
\<close>

theorem change_ctrl_state_table:
  "nvme_change_ctrl_state ctrl new_state =
     (if legal_transition (state ctrl) new_state then (True, ctrl\<lparr>state := new_state\<rparr>)
      else (False, ctrl))"
  by (cases "state ctrl"; cases new_state) (simp_all add: nvme_change_ctrl_state_def)

text \<open>Scenario C of the specification: LIVE to RESETTING is applied.\<close>

theorem change_ctrl_state_table_witness:
  "legal_transition NVME_CTRL_LIVE NVME_CTRL_RESETTING \<and>
   nvme_change_ctrl_state (ctrl_init\<lparr>state := NVME_CTRL_LIVE\<rparr>) NVME_CTRL_RESETTING =
     (True, ctrl_init\<lparr>state := NVME_CTRL_RESETTING\<rparr>)"
  using change_ctrl_state_table [of "ctrl_init\<lparr>state := NVME_CTRL_LIVE\<rparr>" NVME_CTRL_RESETTING]
  by simp

text \<open>
  The table of section 4.2 lists NEW to DELETING, and the code rejects it: the
  DELETING case of the switch accepts LIVE, RESETTING and RECONNECTING only.
\<close>

theorem change_ctrl_state_new_deleting_rejected:
  "spec_transition_table NVME_CTRL_NEW NVME_CTRL_DELETING \<and>
   nvme_change_ctrl_state (ctrl_init\<lparr>state := NVME_CTRL_NEW\<rparr>) NVME_CTRL_DELETING =
     (False, ctrl_init\<lparr>state := NVME_CTRL_NEW\<rparr>)"
  by (simp add: nvme_change_ctrl_state_def)

subsection \<open>Command pipeline\<close>

text \<open>
  C7.  For every completed request with a non-success status,
  \<open>nvme_complete_rq\<close> requeues the request exactly when the four retry
  conditions hold; the requeued request is the same request with its retry
  counter one higher (the 8-bit counter does not wrap there); otherwise the
  request is ended, once, with the outcome its status maps to.  The status
  code is the low 11 bits of the status: code 0 maps to success, 0x81
  (capacity exceeded) to no space, 0x183 (optional command not supported) to
  not supported, 0x280, 0x281 and 0x287 (write fault, unrecovered read error,
  unwritten block) to medium error, and every other code to I/O error.
\<close>

theorem complete_rq_retry_decision:
  assumes "rq_status req \<noteq> 0"
  shows "nvme_complete_rq now max_retries req =
           (if retry_conditions now max_retries req
            then Blk_mq_requeue_request (req\<lparr>rq_retries := rq_retries req + 1\<rparr>)
            else Blk_mq_end_request req
                   (if rq_status req AND 0x7ff = 0 then BLK_STS_OK
                    else if rq_status req AND 0x7ff = 0x81 then BLK_STS_NOSPC
                    else if rq_status req AND 0x7ff = 0x183 then BLK_STS_NOTSUPP
                    else if rq_status req AND 0x7ff = 0x280 \<or>
                            rq_status req AND 0x7ff = 0x281 \<or>
                            rq_status req AND 0x7ff = 0x287 then BLK_STS_MEDIUM
                    else BLK_STS_IOERR)) \<and>
         (retry_conditions now max_retries req \<longrightarrow>
            unat (rq_retries req + 1) = unat (rq_retries req) + 1)"
proof -
  have "(now - rq_start_time req \<ge> ucast (rq_timeout req)) =
        (\<not> unat (now - rq_start_time req) < unat (rq_timeout req))"
    by (simp add: word_le_nat_alt unat_ucast_32_64 not_less)
  then have r: "nvme_req_needs_retry now max_retries req =
             retry_conditions now max_retries req"
    by (auto simp add: nvme_req_needs_retry_def retry_conditions_def NVME_SC_DNR_def)
  have e: "nvme_error_status req =
             (if rq_status req AND 0x7ff = 0 then BLK_STS_OK
              else if rq_status req AND 0x7ff = 0x81 then BLK_STS_NOSPC
              else if rq_status req AND 0x7ff = 0x183 then BLK_STS_NOTSUPP
              else if rq_status req AND 0x7ff = 0x280 \<or>
                      rq_status req AND 0x7ff = 0x281 \<or>
                      rq_status req AND 0x7ff = 0x287 then BLK_STS_MEDIUM
              else BLK_STS_IOERR)"
    by (simp add: nvme_error_status_def Let_def NVME_SC_SUCCESS_def NVME_SC_CAP_EXCEEDED_def
          NVME_SC_ONCS_NOT_SUPPORTED_def NVME_SC_WRITE_FAULT_def NVME_SC_READ_ERROR_def
          NVME_SC_UNWRITTEN_BLOCK_def)
  have w: "retry_conditions now max_retries req \<longrightarrow>
            unat (rq_retries req + 1) = unat (rq_retries req) + 1"
    by (auto simp add: retry_conditions_def retries_no_wrap)
  from assms have "nvme_complete_rq now max_retries req =
           (if retry_conditions now max_retries req
            then Blk_mq_requeue_request (req\<lparr>rq_retries := rq_retries req + 1\<rparr>)
            else Blk_mq_end_request req (nvme_error_status req))"
    by (simp add: nvme_complete_rq_def r)
  with w show ?thesis by (simp only: e simp_thms)
qed

text \<open>
  A read error (status 0x281) at the third attempt, 100 ticks after the first,
  with a timeout of 7500 ticks and at most 5 retries, is requeued with its
  counter at 3.  The same error with the do-not-retry bit (status 0x4281) is
  ended with a medium error, and a capacity-exceeded error (status 0x81) whose
  five retries are used up is ended with no space.
\<close>

theorem complete_rq_retry_decision_witness:
  "rq_status \<lparr>rq_noretry = False, rq_start_time = 1000, rq_timeout = 7500,
              rq_retries = 2, rq_status = 0x281\<rparr> \<noteq> 0 \<and>
   nvme_complete_rq 1100 5
     \<lparr>rq_noretry = False, rq_start_time = 1000, rq_timeout = 7500,
      rq_retries = 2, rq_status = 0x281\<rparr> =
   Blk_mq_requeue_request
     \<lparr>rq_noretry = False, rq_start_time = 1000, rq_timeout = 7500,
      rq_retries = 3, rq_status = 0x281\<rparr> \<and>
   nvme_complete_rq 1100 5
     \<lparr>rq_noretry = False, rq_start_time = 1000, rq_timeout = 7500,
      rq_retries = 2, rq_status = 0x4281\<rparr> =
   Blk_mq_end_request
     \<lparr>rq_noretry = False, rq_start_time = 1000, rq_timeout = 7500,
      rq_retries = 2, rq_status = 0x4281\<rparr> BLK_STS_MEDIUM \<and>
   nvme_complete_rq 1100 5
     \<lparr>rq_noretry = False, rq_start_time = 1000, rq_timeout = 7500,
      rq_retries = 5, rq_status = 0x81\<rparr> =
   Blk_mq_end_request
     \<lparr>rq_noretry = False, rq_start_time = 1000, rq_timeout = 7500,
      rq_retries = 5, rq_status = 0x81\<rparr> BLK_STS_NOSPC"
proof -
  have h1: "rq_status \<lparr>rq_noretry = False, rq_start_time = 1000, rq_timeout = 7500,
              rq_retries = 2, rq_status = 0x281\<rparr> \<noteq> 0"
    by simp
  have h2: "rq_status \<lparr>rq_noretry = False, rq_start_time = 1000, rq_timeout = 7500,
              rq_retries = 2, rq_status = 0x4281\<rparr> \<noteq> 0"
    by simp
  have h3: "rq_status \<lparr>rq_noretry = False, rq_start_time = 1000, rq_timeout = 7500,
              rq_retries = 5, rq_status = 0x81\<rparr> \<noteq> 0"
    by simp
  show ?thesis
    using h1 complete_rq_retry_decision [OF h1, of 1100 5]
      complete_rq_retry_decision [OF h2, of 1100 5]
      complete_rq_retry_decision [OF h3, of 1100 5]
    by (simp add: retry_conditions_def)
qed

subsection \<open>Path and namespace registry\<close>

text \<open>
  C8, as amended.  \<open>get_ns_state\<close> classifies a namespace ACTIVE exactly when
  its active flag is set and its controller is LIVE, STANDBY exactly when the
  flag is clear and the controller is LIVE, UNDEFINED exactly when the
  controller is not LIVE.  \<open>get_ns_active\<close> returns the first member that is
  classified ACTIVE and carries the MULTIPATH flag, or none.
  \<open>nvme_get_active_ns_for_mpath_ns\<close>, the lookup under the registry lock,
  returns for an aggregate (ROOT) namespace the first member whose active flag
  is set, whatever the state of its controller, or none when no member has the
  flag; for any other namespace it returns that namespace.
\<close>

theorem registry_classification:
  "(get_ns_state s ns = NVME_NS_STATE_ACTIVE \<longleftrightarrow>
      ns_active (nss s ns) \<and> state (ctrls s (ns_ctrl (nss s ns))) = NVME_CTRL_LIVE) \<and>
   (get_ns_state s ns = NVME_NS_STATE_STANDBY \<longleftrightarrow>
      \<not> ns_active (nss s ns) \<and> state (ctrls s (ns_ctrl (nss s ns))) = NVME_CTRL_LIVE) \<and>
   (get_ns_state s ns = NVME_NS_STATE_UNDEFINED \<longleftrightarrow>
      state (ctrls s (ns_ctrl (nss s ns))) \<noteq> NVME_CTRL_LIVE) \<and>
   (get_ns_active s v = Some ns \<longleftrightarrow>
      (\<exists>i < length (namespaces (ctrls s (ns_ctrl (nss s v)))).
         namespaces (ctrls s (ns_ctrl (nss s v))) ! i = ns \<and>
         get_ns_state s ns = NVME_NS_STATE_ACTIVE \<and> test_bit_ns NVME_NS_MULTIPATH ns s \<and>
         (\<forall>j < i. \<not> (get_ns_state s (namespaces (ctrls s (ns_ctrl (nss s v))) ! j)
                          = NVME_NS_STATE_ACTIVE \<and>
                        test_bit_ns NVME_NS_MULTIPATH
                          (namespaces (ctrls s (ns_ctrl (nss s v))) ! j) s)))) \<and>
   (get_ns_active s v = None \<longleftrightarrow>
      (\<forall>x \<in> set (namespaces (ctrls s (ns_ctrl (nss s v)))).
         \<not> (get_ns_state s x = NVME_NS_STATE_ACTIVE \<and> test_bit_ns NVME_NS_MULTIPATH x s))) \<and>
   (test_bit_ns NVME_NS_ROOT v s \<longrightarrow>
      (nvme_get_active_ns_for_mpath_ns s v = Some ns \<longleftrightarrow>
         (\<exists>i < length (namespaces (ctrls s (ns_ctrl (nss s v)))).
            namespaces (ctrls s (ns_ctrl (nss s v))) ! i = ns \<and> ns_active (nss s ns) \<and>
            (\<forall>j < i. \<not> ns_active (nss s (namespaces (ctrls s (ns_ctrl (nss s v))) ! j))))) \<and>
      (nvme_get_active_ns_for_mpath_ns s v = None \<longleftrightarrow>
         (\<forall>x \<in> set (namespaces (ctrls s (ns_ctrl (nss s v)))). \<not> ns_active (nss s x)))) \<and>
   (\<not> test_bit_ns NVME_NS_ROOT v s \<longrightarrow> nvme_get_active_ns_for_mpath_ns s v = Some v)"
proof -
  have 1: "get_ns_state s ns = NVME_NS_STATE_ACTIVE \<longleftrightarrow>
      ns_active (nss s ns) \<and> state (ctrls s (ns_ctrl (nss s ns))) = NVME_CTRL_LIVE"
    by (simp add: get_ns_state_def)
  have 2: "get_ns_state s ns = NVME_NS_STATE_STANDBY \<longleftrightarrow>
      \<not> ns_active (nss s ns) \<and> state (ctrls s (ns_ctrl (nss s ns))) = NVME_CTRL_LIVE"
    by (simp add: get_ns_state_def)
  have 3: "get_ns_state s ns = NVME_NS_STATE_UNDEFINED \<longleftrightarrow>
      state (ctrls s (ns_ctrl (nss s ns))) \<noteq> NVME_CTRL_LIVE"
    by (simp add: get_ns_state_def)
  have 4: "find P xs = Some x \<longleftrightarrow> (\<exists>i < length xs. xs ! i = x \<and> P x \<and> (\<forall>j < i. \<not> P (xs ! j)))"
    for P :: "nat \<Rightarrow> bool" and xs x
    by (auto simp add: find_Some_iff)
  have 5: "find P xs = None \<longleftrightarrow> (\<forall>x \<in> set xs. \<not> P x)" for P :: "nat \<Rightarrow> bool" and xs
    by (auto simp add: find_None_iff)
  show ?thesis
    unfolding get_ns_active_def nvme_get_active_ns_for_mpath_ns_def
    using 1 2 3 by (simp add: 4 5)
qed

text \<open>
  On the two-path volume, member 1 is ACTIVE, member 2 is STANDBY, and both
  lookups on the aggregate namespace 3 return member 1.
\<close>

theorem registry_classification_witness:
  "test_bit_ns NVME_NS_ROOT 3 two_path_volume \<and>
   get_ns_state two_path_volume 1 = NVME_NS_STATE_ACTIVE \<and>
   get_ns_state two_path_volume 2 = NVME_NS_STATE_STANDBY \<and>
   get_ns_active two_path_volume 3 = Some 1 \<and>
   nvme_get_active_ns_for_mpath_ns two_path_volume 3 = Some 1"
proof -
  have a: "ns_active (nss two_path_volume 1) \<and>
           state (ctrls two_path_volume (ns_ctrl (nss two_path_volume 1))) = NVME_CTRL_LIVE"
    by (simp add: ex_defs)
  have b: "\<not> ns_active (nss two_path_volume 2) \<and>
           state (ctrls two_path_volume (ns_ctrl (nss two_path_volume 2))) = NVME_CTRL_LIVE"
    by (simp add: ex_defs)
  have r: "test_bit_ns NVME_NS_ROOT 3 two_path_volume"
    by (simp add: ex_defs test_bit_ns_def)
  from registry_classification [of two_path_volume 1 3] a
  have 1: "get_ns_state two_path_volume 1 = NVME_NS_STATE_ACTIVE" by blast
  from registry_classification [of two_path_volume 2 3] b
  have 2: "get_ns_state two_path_volume 2 = NVME_NS_STATE_STANDBY" by blast
  have 3: "get_ns_active two_path_volume 3 = Some 1"
    by (simp add: get_ns_active_def get_ns_state_def test_bit_ns_def ex_defs)
  have 4: "nvme_get_active_ns_for_mpath_ns two_path_volume 3 = Some 1"
    by (simp add: nvme_get_active_ns_for_mpath_ns_def test_bit_ns_def ex_defs)
  from r 1 2 3 4 show ?thesis by simp
qed

text \<open>
  With the controller of member 1 in RESETTING, no member of the volume is
  classified ACTIVE, and the lookup under the lock still returns member 1.
\<close>

theorem get_active_ignores_ctrl_state:
  "get_ns_state two_path_resetting 1 = NVME_NS_STATE_UNDEFINED \<and>
   get_ns_state two_path_resetting 2 = NVME_NS_STATE_STANDBY \<and>
   nvme_get_active_ns_for_mpath_ns two_path_resetting 3 = Some 1"
  by (simp add: get_ns_state_def nvme_get_active_ns_for_mpath_ns_def ctrl_upd_def
      test_bit_ns_def ex_defs)

subsection \<open>Failover engine\<close>

text \<open>
  C1, at the input where the code breaks it.  The two-path volume has just
  been created: member 1 is active and its creation request is in flight,
  issued without the FAILOVER_IN_PROGRESS flag.  A failover triggered on
  controller 10 takes the flag, demotes member 1 and requests the promotion of
  member 2.  The creation request then completes with success: it sets the
  active flag of member 1 again and clears the flag of the volume.  The
  promotion then completes with success and sets the active flag of member 2.
  The group of controller 30 now has two active members, 1 and 2, in a state
  that calls of \<open>nvme_trigger_failover\<close> and completions
  \<open>nvme_ns_active_end_io\<close> reach from a state the driver builds.
\<close>

theorem creation_request_two_active_members:
  "built two_path_created \<and>
   active_members two_path_created 30 = [1] \<and>
   admin_requests two_path_created = [set_active_1] \<and>
   \<not> test_bit_ns NVME_NS_FO_IN_PROGRESS 3 two_path_created \<and>
   nvme_trigger_failover Alloc_ok 10 two_path_created = Inr two_path_created_demoted \<and>
   active_members two_path_created_demoted 30 = [] \<and>
   admin_requests two_path_created_demoted = [set_active_1, set_active_2] \<and>
   nvme_ns_active_end_io set_active_1 BLK_STS_OK
     (two_path_created_demoted\<lparr>admin_requests := [set_active_2]\<rparr>)
     = Inr two_path_created_restored \<and>
   active_members two_path_created_restored 30 = [1] \<and>
   admin_requests two_path_created_restored = [set_active_2] \<and>
   nvme_ns_active_end_io set_active_2 BLK_STS_OK
     (two_path_created_restored\<lparr>admin_requests := []\<rparr>)
     = Inr two_path_both_active \<and>
   reaches two_path_created two_path_both_active \<and>
   nvme_mpath_ctrl_list two_path_both_active = [30] \<and>
   active_members two_path_both_active 30 = [1, 2]"
  using created_built created_fields created_demoted_eq created_demoted_fields
    created_restored_eq created_restored_fields both_active_eq both_active_reaches
    both_active_fields
  by simp

text \<open>
  C3, at the input where the code breaks its consequence.  On the two-path
  volume right after its creation, with the promotion of member 2 in flight
  and the flag of the volume set, a second trigger on controller 10 changes
  nothing, as the claim says.  But the completion of the creation request,
  which never took the flag, clears it while the promotion is still in flight;
  the next trigger on controller 10 takes the flag again and issues a second
  promotion request.  Two failover attempts for volume 3 are then in progress
  at once.
\<close>

theorem creation_request_two_failovers_in_flight:
  "test_bit_ns NVME_NS_FO_IN_PROGRESS 3 two_path_created_demoted \<and>
   admin_requests two_path_created_demoted = [set_active_1, set_active_2] \<and>
   nvme_trigger_failover Alloc_ok 10 two_path_created_demoted = Inr two_path_created_demoted \<and>
   nvme_ns_active_end_io set_active_1 BLK_STS_OK
     (two_path_created_demoted\<lparr>admin_requests := [set_active_2]\<rparr>)
     = Inr two_path_created_restored \<and>
   \<not> test_bit_ns NVME_NS_FO_IN_PROGRESS 3 two_path_created_restored \<and>
   admin_requests two_path_created_restored = [set_active_2] \<and>
   nvme_trigger_failover Alloc_ok 10 two_path_created_restored = Inr two_path_two_failovers \<and>
   reaches two_path_created two_path_two_failovers \<and>
   test_bit_ns NVME_NS_FO_IN_PROGRESS 3 two_path_two_failovers \<and>
   admin_requests two_path_two_failovers = [set_active_2, set_active_2] \<and>
   map fd_mpath_ns (admin_requests two_path_two_failovers) = [3, 3]"
  using created_demoted_fields created_demoted_noop created_restored_eq
    created_restored_fields two_failovers_eq two_failovers_reaches two_failovers_fields
  by (simp add: set_active_2_def)

text \<open>
  C4, as amended.  Whenever \<open>nvme_trigger_failover\<close> takes the flag of a
  settled ROOT volume, its scan resolves both an active and a standby member,
  the product \<open>ns_failover_interval * HZ\<close> fits the 32 bits it is computed in,
  and the ticks elapsed since the standby's timestamp are fewer than that
  product, the attempt is aborted: no active flag changes, the
  FAILOVER_IN_PROGRESS flag is clear again, and the only effect is that the
  delayed work \<open>cu_work\<close> of the aggregate controller is scheduled \<open>HZ\<close> ticks
  later.  That work is the cleanup \<open>nvme_mpath_flush_io_work\<close>, which fails the
  parked I/O; it is not a retry of the failover.
\<close>

theorem failover_rate_limited:
  assumes tg: "failover_target s ctrl = Inr (Some (m, r))"
      and fo: "\<not> test_bit_ns NVME_NS_FO_IN_PROGRESS r s"
      and cd: "cleanup_done (ctrls s m)"
      and root: "test_bit_ns NVME_NS_ROOT r s"
      and sc: "failover_scan (nss s) (namespaces (ctrls s (ns_ctrl (nss s r)))) None None
                 = (Some a, Some b)"
      and nov: "unat (ns_failover_interval s) * unat (HZ s) < 2 ^ 32"
      and soon: "unat (jiffies s - ns_start_time (nss s b))
                   < unat (ns_failover_interval s) * unat (HZ s)"
  shows "nvme_trigger_failover alloc ctrl s =
           Inr (s\<lparr>delayed_work := delayed_work s @ [(m, ucast (HZ s))]\<rparr>)"
proof -
  let ?s1 = "set_bit_ns NVME_NS_FO_IN_PROGRESS r s"
  have sc1: "failover_scan (nss ?s1) (namespaces (ctrls ?s1 (ns_ctrl (nss ?s1 r)))) None None
               = (Some a, Some b)"
    using sc failover_scan_cong [of "nss ?s1" "nss s"] by simp
  from failover_scan_found [OF sc] have ab: "a \<noteq> b" by auto
  have "failover_too_soon ?s1 b = failover_too_soon s b"
    by (simp add: failover_too_soon_def set_bit_ns_def ns_upd_def)
  then have "failover_too_soon ?s1 b"
    using soon too_soon_nat [OF nov, of b] by simp
  with ab have "failover_switch alloc m r a b ?s1 =
      Inr (schedule_delayed_work m (ucast (HZ s)) (clear_bit_ns NVME_NS_FO_IN_PROGRESS r ?s1))"
    by (simp add: failover_switch_def)
  moreover have "clear_bit_ns NVME_NS_FO_IN_PROGRESS r ?s1 = s"
    using fo by (simp add: clear_set_bit test_bit_ns_def)
  ultimately have "failover_switch alloc m r a b ?s1 =
      Inr (s\<lparr>delayed_work := delayed_work s @ [(m, ucast (HZ s))]\<rparr>)"
    by (simp add: schedule_delayed_work_def)
  with tg fo cd root sc1 show ?thesis
    by (simp add: nvme_trigger_failover_def Let_def test_bit_ns_def)
qed

text \<open>
  Scenario B of the specification: 1000 ticks after the standby's timestamp,
  with an interval of 60 seconds at 250 ticks per second, the failover from
  member 1 is refused and only the cleanup work is scheduled.
\<close>

theorem failover_rate_limited_witness:
  "failover_target two_path_rate_limited 10 = Inr (Some (30, 3)) \<and>
   \<not> test_bit_ns NVME_NS_FO_IN_PROGRESS 3 two_path_rate_limited \<and>
   cleanup_done (ctrls two_path_rate_limited 30) \<and>
   test_bit_ns NVME_NS_ROOT 3 two_path_rate_limited \<and>
   failover_scan (nss two_path_rate_limited)
     (namespaces (ctrls two_path_rate_limited (ns_ctrl (nss two_path_rate_limited 3))))
     None None = (Some 1, Some 2) \<and>
   unat (ns_failover_interval two_path_rate_limited) * unat (HZ two_path_rate_limited) < 2 ^ 32 \<and>
   unat (jiffies two_path_rate_limited - ns_start_time (nss two_path_rate_limited 2))
     < unat (ns_failover_interval two_path_rate_limited) * unat (HZ two_path_rate_limited) \<and>
   nvme_trigger_failover Alloc_ok 10 two_path_rate_limited =
     Inr (two_path_rate_limited\<lparr>delayed_work := [(30, 250)]\<rparr>)"
proof -
  have 1: "failover_target two_path_rate_limited 10 = Inr (Some (30, 3))"
    by (simp add: ex_defs op_defs)
  have 2: "\<not> test_bit_ns NVME_NS_FO_IN_PROGRESS 3 two_path_rate_limited"
    by (simp add: ex_defs op_defs)
  have 3: "cleanup_done (ctrls two_path_rate_limited 30)"
    by (simp add: ex_defs)
  have 4: "test_bit_ns NVME_NS_ROOT 3 two_path_rate_limited"
    by (simp add: ex_defs op_defs)
  have 5: "failover_scan (nss two_path_rate_limited)
     (namespaces (ctrls two_path_rate_limited (ns_ctrl (nss two_path_rate_limited 3))))
     None None = (Some 1, Some 2)"
    by (simp add: ex_defs Let_def)
  have 6: "unat (ns_failover_interval two_path_rate_limited) * unat (HZ two_path_rate_limited)
             < 2 ^ 32"
    by (simp add: ex_defs)
  have 7: "unat (jiffies two_path_rate_limited - ns_start_time (nss two_path_rate_limited 2))
     < unat (ns_failover_interval two_path_rate_limited) * unat (HZ two_path_rate_limited)"
    by (simp add: ex_defs)
  have 8: "delayed_work two_path_rate_limited = [] \<and> HZ two_path_rate_limited = 250"
    by (simp add: ex_defs)
  from failover_rate_limited [OF 1 2 3 4 5 6 7, of Alloc_ok] 1 2 3 4 5 6 7 8
  show ?thesis by simp
qed

text \<open>
  After the refused attempt the work scheduled is the cleanup of controller
  30.  Run once the interval has passed, it issues no promotion and leaves
  member 1 active; it ends the parked bio 7 with an I/O error.  A trigger at
  that time would have demoted member 1 and requested the promotion of
  member 2.
\<close>

theorem failover_rate_limit_schedules_cleanup:
  "nvme_trigger_failover Alloc_ok 10 two_path_rate_limited =
     Inr (two_path_rate_limited\<lparr>delayed_work := [(30, 250)]\<rparr>) \<and>
   \<not> isl (nvme_mpath_flush_io_work 30 two_path_cleanup_due) \<and>
   admin_requests (projr (nvme_mpath_flush_io_work 30 two_path_cleanup_due)) = [] \<and>
   ns_active (nss (projr (nvme_mpath_flush_io_work 30 two_path_cleanup_due)) 1) \<and>
   map fst (ended (projr (nvme_mpath_flush_io_work 30 two_path_cleanup_due))) = [7] \<and>
   bi_status (bios (projr (nvme_mpath_flush_io_work 30 two_path_cleanup_due)) 7)
     = BLK_STS_IOERR \<and>
   admin_requests (projr (nvme_trigger_failover Alloc_ok 10 two_path_cleanup_due)) =
     [\<lparr>fd_standby_ns = 2, fd_mpath_ns = 3, fd_retries = 3\<rparr>] \<and>
   \<not> ns_active (nss (projr (nvme_trigger_failover Alloc_ok 10 two_path_cleanup_due)) 1)"
  by (simp add: ex_defs op_defs Let_def)

text \<open>
  C5, as amended.  When \<open>nvme_trigger_failover\<close> takes the flag of a volume
  that has not settled (\<open>cleanup_done\<close> is false), it does not run the normal
  scan and applies no rate limit.  It looks for the first member whose active
  flag is clear and whose controller is not RECONNECTING (the controller need
  not be LIVE).  If there is none, the flag is cleared and nothing is
  scheduled.  If there is one and the set-active request can be issued, the
  request is in flight and the flag stays set; if it cannot be issued, the
  flag is cleared and the cleanup work of the aggregate controller is
  scheduled \<open>HZ\<close> ticks later.
\<close>

theorem failover_unsettled_promotion:
  assumes tg: "failover_target s ctrl = Inr (Some (m, r))"
      and fo: "\<not> test_bit_ns NVME_NS_FO_IN_PROGRESS r s"
      and cd: "\<not> cleanup_done (ctrls s m)"
  shows "nvme_trigger_failover alloc ctrl s =
     (case find (\<lambda>ns. \<not> ns_active (nss s ns) \<and>
                        state (ctrls s (ns_ctrl (nss s ns))) \<noteq> NVME_CTRL_RECONNECTING)
             (namespaces (ctrls s (ns_ctrl (nss s r)))) of
        None \<Rightarrow> Inr s
      | Some ns \<Rightarrow>
          if alloc = Alloc_ok
          then Inr (set_bit_ns NVME_NS_FO_IN_PROGRESS r s
                 \<lparr>admin_requests := admin_requests s @
                    [\<lparr>fd_standby_ns = ns, fd_mpath_ns = r,
                      fd_retries = NVME_FAILOVER_RETRIES\<rparr>]\<rparr>)
          else Inr (s\<lparr>delayed_work := delayed_work s @ [(m, ucast (HZ s))]\<rparr>))"
proof -
  let ?s1 = "set_bit_ns NVME_NS_FO_IN_PROGRESS r s"
  let ?P = "\<lambda>s ns. \<not> ns_active (nss s ns) \<and>
                  state (ctrls s (ns_ctrl (nss s ns))) \<noteq> NVME_CTRL_RECONNECTING"
  have P: "?P ?s1 = ?P s" by (auto simp add: fun_eq_iff)
  have cl: "clear_bit_ns NVME_NS_FO_IN_PROGRESS r ?s1 = s"
    using fo by (simp add: clear_set_bit test_bit_ns_def)
  have m: "namespaces (ctrls ?s1 (ns_ctrl (nss ?s1 r))) = namespaces (ctrls s (ns_ctrl (nss s r)))"
    by simp
  show ?thesis
  proof (cases "find (?P s) (namespaces (ctrls s (ns_ctrl (nss s r))))")
    case None
    then have "nvme_update_active alloc (Some r) ?s1 = Inr (- 1, s)"
      unfolding nvme_update_active_def P m by (simp add: deref_def cl)
    with tg fo cd None show ?thesis
      by (simp add: nvme_trigger_failover_def Let_def)
  next
    case (Some ns)
    show ?thesis
    proof (cases "alloc = Alloc_ok")
      case True
      with Some have "nvme_update_active alloc (Some r) ?s1 =
         Inr (1, ?s1\<lparr>admin_requests := admin_requests s @
                    [\<lparr>fd_standby_ns = ns, fd_mpath_ns = r,
                      fd_retries = NVME_FAILOVER_RETRIES\<rparr>]\<rparr>)"
        unfolding nvme_update_active_def P m by (simp add: deref_def nvme_set_ns_active_def)
      with tg fo cd Some True show ?thesis
        by (simp add: nvme_trigger_failover_def Let_def)
    next
      case False
      then have "\<exists>ret. ret \<noteq> 0 \<and>
                   nvme_set_ns_active alloc ns r NVME_FAILOVER_RETRIES ?s1 = (ret, ?s1)"
        by (cases alloc) (auto simp add: nvme_set_ns_active_def elim: neg_errno.elims)
      with Some have "nvme_update_active alloc (Some r) ?s1 = Inr (0, s)"
        unfolding nvme_update_active_def P m by (auto simp add: deref_def cl)
      with tg fo cd Some False show ?thesis
        by (simp add: nvme_trigger_failover_def Let_def schedule_delayed_work_def)
    qed
  qed
qed

text \<open>
  On the unsettled two-path volume a trigger on the controller of member 1
  requests the promotion of member 2.
\<close>

theorem failover_unsettled_promotion_witness:
  "failover_target two_path_unsettled 10 = Inr (Some (30, 3)) \<and>
   \<not> test_bit_ns NVME_NS_FO_IN_PROGRESS 3 two_path_unsettled \<and>
   \<not> cleanup_done (ctrls two_path_unsettled 30) \<and>
   nvme_trigger_failover Alloc_ok 10 two_path_unsettled =
     Inr (set_bit_ns NVME_NS_FO_IN_PROGRESS 3 two_path_unsettled
            \<lparr>admin_requests := [\<lparr>fd_standby_ns = 2, fd_mpath_ns = 3, fd_retries = 3\<rparr>]\<rparr>)"
proof -
  have 1: "failover_target two_path_unsettled 10 = Inr (Some (30, 3))"
    by (simp add: ex_defs op_defs)
  have 2: "\<not> test_bit_ns NVME_NS_FO_IN_PROGRESS 3 two_path_unsettled"
    by (simp add: ex_defs op_defs)
  have 3: "\<not> cleanup_done (ctrls two_path_unsettled 30)"
    by (simp add: ex_defs op_defs)
  have 4: "find (\<lambda>ns. \<not> ns_active (nss two_path_unsettled ns) \<and>
                   state (ctrls two_path_unsettled (ns_ctrl (nss two_path_unsettled ns)))
                     \<noteq> NVME_CTRL_RECONNECTING)
             (namespaces (ctrls two_path_unsettled (ns_ctrl (nss two_path_unsettled 3))))
           = Some 2"
    by (simp add: ex_defs op_defs)
  have 5: "admin_requests two_path_unsettled = []"
    by (simp add: ex_defs op_defs)
  from failover_unsettled_promotion [OF 1 2 3, of Alloc_ok] 1 2 3
  show ?thesis by (simp add: 4 5 NVME_FAILOVER_RETRIES_def)
qed

text \<open>
  Member 2 sits on a controller in DELETING, so it is not classified STANDBY,
  and it is the one promoted.  When both controllers are RECONNECTING nothing
  qualifies, and the call schedules no retry.
\<close>

theorem failover_unsettled_not_live:
  "get_ns_state two_path_unsettled 2 = NVME_NS_STATE_UNDEFINED \<and>
   admin_requests (projr (nvme_trigger_failover Alloc_ok 10 two_path_unsettled)) =
     [\<lparr>fd_standby_ns = 2, fd_mpath_ns = 3, fd_retries = 3\<rparr>] \<and>
   \<not> isl (nvme_trigger_failover Alloc_ok 10 two_path_reconnecting) \<and>
   delayed_work (projr (nvme_trigger_failover Alloc_ok 10 two_path_reconnecting)) = [] \<and>
   admin_requests (projr (nvme_trigger_failover Alloc_ok 10 two_path_reconnecting)) = []"
  by (simp add: ex_defs op_defs Let_def)

text \<open>
  C10.  \<open>nvme_update_active\<close> called with a NULL aggregate namespace faults in
  its own guard, which clears a flag bit through the NULL pointer; the call is
  free of faults exactly when the pointer is not NULL.
\<close>

theorem update_active_null_guard_faults:
  "nvme_update_active alloc None s = Inl Null_deref \<and>
   (isl (nvme_update_active alloc mpath_ns s) \<longleftrightarrow> mpath_ns = None)"
  by (cases mpath_ns)
     (auto simp add: nvme_update_active_def test_and_clear_bit_def deref_def
        split: option.splits prod.splits)

text \<open>The guard on the unsettled two-path volume, with NULL and with namespace 3.\<close>

theorem update_active_null_guard_faults_witness:
  "nvme_update_active Alloc_ok None two_path_unsettled = Inl Null_deref \<and>
   \<not> isl (nvme_update_active Alloc_ok (Some 3) two_path_unsettled)"
  using update_active_null_guard_faults [of Alloc_ok two_path_unsettled "Some 3"]
  by simp

subsection \<open>Submission entry point\<close>

text \<open>
  C9.  When the allocation of the shadow record fails, \<open>nvme_mpath_make_request\<close>
  returns (it does not wait or retry), and its whole effect is that the bio
  gets the status I/O error and is ended, with its own completion callback
  untouched: controllers, namespaces, congestion queues, shadow records, other
  bios and the submissions so far stay as they were.
\<close>

theorem make_request_alloc_failure:
  "nvme_mpath_make_request None mpath_ns b s =
     Some (s\<lparr>bios := (bios s)(b := (bios s b)\<lparr>bi_status := BLK_STS_IOERR\<rparr>),
             ended := ended s @ [(b, (bios s b)\<lparr>bi_status := BLK_STS_IOERR\<rparr>)]\<rparr>)"
  by (simp add: nvme_mpath_make_request_def out_exit_mpath_request_def Let_def)

text \<open>
  Scenario D of the specification: with bio 7 parked, a new bio 9 that gets no
  shadow record is ended with an I/O error, and bio 7 stays as it was.
\<close>

theorem make_request_alloc_failure_witness:
  "ended (the (nvme_mpath_make_request None 3 9 two_path_parked)) =
     [(9, bio_init\<lparr>bi_status := BLK_STS_IOERR\<rparr>)] \<and>
   nss (the (nvme_mpath_make_request None 3 9 two_path_parked)) = nss two_path_parked \<and>
   ctrls (the (nvme_mpath_make_request None 3 9 two_path_parked)) = ctrls two_path_parked \<and>
   bios (the (nvme_mpath_make_request None 3 9 two_path_parked)) 7 = bios two_path_parked 7"
  using make_request_alloc_failure [of 3 9 two_path_parked]
  by (simp add: ex_defs)

subsection \<open>Congestion queue\<close>




end
